theory Spec2Isabelle
  imports Complex_Main "HOL-Library.Sublist"
begin

section \<open>The simulation core of the platformer (src/app/page.tsx)\<close>

text \<open>
  A shallow embedding of the per-tick simulation of \<^verbatim>\<open>src/app/page.tsx\<close>: the entity
  types, \<^verbatim>\<open>aabb\<close>, \<^verbatim>\<open>clamp\<close>, \<^verbatim>\<open>moveAndCollide\<close>, \<^verbatim>\<open>bossIntegrate\<close>,
  \<^verbatim>\<open>findGroundBelow\<close>, \<^verbatim>\<open>spawnShockwave\<close> and \<^verbatim>\<open>update\<close>.

  Conventions of the embedding.
  \<^item> A TypeScript \<^verbatim>\<open>number\<close> that holds a coordinate, a size, a velocity or a time is a
    \<^typ>\<open>real\<close>: arithmetic is exact, the rounding of IEEE doubles is not modelled. In the
    definitions of the source's functions each \<open>+\<close>, \<open>-\<close>, \<open>*\<close> and \<open>/\<close> is one
    operation of the source, in the source's order. The statements about the collision passes, the ground snap and the
    boss are written so that they do not depend on sums and differences cancelling (over
    doubles \<open>(a - b) + b\<close> need not be \<open>a\<close>): they give a position as the expression that
    the source assigns, and compare only values that the source compares. A
    \<^verbatim>\<open>number\<close> that the program only counts with (\<^verbatim>\<open>life\<close>, \<^verbatim>\<open>hp\<close>, \<^verbatim>\<open>phase\<close>,
    \<^verbatim>\<open>timer\<close>, \<^verbatim>\<open>tick\<close>, \<^verbatim>\<open>cooldown\<close>, \<^verbatim>\<open>fireRate\<close>, \<^verbatim>\<open>facing\<close>) is an \<^typ>\<open>int\<close>.
  \<^item> The objects are mutated in place by the source; the model passes the state and
    returns it updated. Every \<^verbatim>\<open>for ... of\<close> loop is a recursion over the list, in the
    list's order.
  \<^item> The calls \<^verbatim>\<open>audio.sfxJump()\<close>, \<^verbatim>\<open>audio.sfxShoot()\<close> and \<^verbatim>\<open>audio.sfxHit()\<close> return
    nothing to the simulation: they are collected, in order, as a list of cues.
  \<^item> The field selectors \<open>x\<close>, \<open>y\<close>, \<open>w\<close>, \<open>h\<close>, \<open>vx\<close>, \<open>vy\<close> are constants of this
    theory; variables are named otherwise.
\<close>

subsection \<open>Constants\<close>

definition BASE_W :: real where "BASE_W = 256"
definition BASE_H :: real where "BASE_H = 144"
definition GRAVITY :: real where "GRAVITY = 0.35"
definition MOVE_SPEED :: real where "MOVE_SPEED = 1.0"
definition JUMP_VEL :: real where "JUMP_VEL = - 6.0"
definition MAX_FALL :: real where "MAX_FALL = 6.5"

subsection \<open>Entities\<close>

text \<open>\<^verbatim>\<open>type Keys\<close>.\<close>

record keys =
  left :: bool
  right :: bool
  up :: bool
  down :: bool
  jump :: bool
  fire :: bool
  crouch :: bool

text \<open>\<^verbatim>\<open>type Rect = { x; y; w; h }\<close>.\<close>

record rect =
  x :: real
  y :: real
  w :: real
  h :: real

text \<open>
  \<^verbatim>\<open>type Platform = Rect & { vx?: number; range?: [number, number] }\<close>. The two optional
  fields are options; they are named \<open>vx_opt\<close> and \<open>range_opt\<close> since \<open>vx\<close> is the
  velocity of a moving body below and \<open>range\<close> is a constant of HOL.
\<close>

record platform = rect +
  vx_opt :: "real option"
  range_opt :: "(real \<times> real) option"

text \<open>
  The fields that \<^verbatim>\<open>Projectile\<close>, \<^verbatim>\<open>Boss\<close> and \<^verbatim>\<open>Player\<close> share, and that
  \<^verbatim>\<open>moveAndCollide\<close> reaches through \<^verbatim>\<open>(body as any)\<close>.
\<close>

record mover = rect +
  vx :: real
  vy :: real

text \<open>\<^verbatim>\<open>type Projectile = Rect & { vx; vy; life; friendly }\<close>.\<close>

record projectile = mover +
  life :: int
  friendly :: bool

text \<open>
  \<^verbatim>\<open>type Enemy = Swordsman | Archer\<close> over \<^verbatim>\<open>EnemyBase = Rect & { alive; type }\<close>: the
  tag \<^verbatim>\<open>type\<close> and the fields of the variant are the value of \<open>etype\<close>.
\<close>

datatype enemy_type =
  Swordsman (dir: real) (minX: real) (maxX: real) (speed: real)
  | Archer (cooldown: int) (fireRate: int)

record enemy = rect +
  alive :: bool
  etype :: enemy_type

text \<open>\<^verbatim>\<open>type Boss\<close>. Its \<^verbatim>\<open>alive\<close> flag is written \<open>boss.alive\<close>, the enemy's \<open>enemy.alive\<close>.\<close>

record boss = mover +
  hp :: int
  alive :: bool
  phase :: int
  timer :: int
  grounded :: bool

text \<open>\<^verbatim>\<open>type Player\<close>. Its \<^verbatim>\<open>crouch\<close> flag is written \<open>player.crouch\<close>, the key \<open>keys.crouch\<close>.\<close>

record player = mover +
  facing :: int
  onGround :: bool
  crouch :: bool
  canFireAt :: real
  invuln :: real

datatype LevelKind = Intro | Fase1 | Fase2 | Fase3 | BossLevel

text \<open>\<^verbatim>\<open>type Level\<close>; the optional \<^verbatim>\<open>boss?\<close> is an option.\<close>

record level =
  kind :: LevelKind
  platforms :: "platform list"
  enemies :: "enemy list"
  arrows :: "projectile list"
  projs :: "projectile list"
  gem :: rect
  boss :: "boss option"
  cameraX :: real
  worldW :: real
  worldH :: real
  tick :: int

text \<open>The sound effects that \<^verbatim>\<open>update\<close> triggers.\<close>

datatype cue = SfxJump | SfxShoot | SfxHit

subsection \<open>Utilities\<close>

definition aabb :: "'a rect_scheme \<Rightarrow> 'b rect_scheme \<Rightarrow> bool" where
  "aabb a b = (\<not> (x a + w a \<le> x b \<or> x a \<ge> x b + w b \<or> y a + h a \<le> y b \<or> y a \<ge> y b + h b))"

definition clamp :: "real \<Rightarrow> real \<Rightarrow> real \<Rightarrow> real" where
  "clamp v lo hi = max lo (min hi v)"

definition makePlayer :: "real \<Rightarrow> real \<Rightarrow> player" where
  "makePlayer spawnX spawnY =
     \<lparr>x = spawnX, y = spawnY, w = 8, h = 12, vx = 0, vy = 0, facing = 1, onGround = False,
      player.crouch = False, canFireAt = 0, invuln = 0\<rparr>"

definition levelBoss :: level where
  "levelBoss =
     \<lparr>kind = BossLevel,
      platforms = [\<lparr>x = 0, y = 110, w = 640, h = 8, vx_opt = None, range_opt = None\<rparr>],
      enemies = [],
      arrows = [],
      projs = [],
      gem = \<lparr>x = 640 - 32, y = 110 - 20, w = 12, h = 12\<rparr>,
      boss = Some \<lparr>x = 640 - 90, y = 110 - 20, w = 18, h = 20, vx = 0, vy = 0, hp = 3,
                   boss.alive = True, phase = 0, timer = 0, grounded = True\<rparr>,
      cameraX = 0, worldW = 640, worldH = BASE_H, tick = 0\<rparr>"

subsection \<open>Movement and collisions\<close>

text \<open>
  One iteration of the horizontal loop of \<^verbatim>\<open>moveAndCollide\<close>, for the platform \<open>pl\<close>.
  \<open>x pl - w b\<close> is the source's \<^verbatim>\<open>p.x - body.w\<close>, which a double rounds: the right edge
  \<open>x + w\<close> of the body is then at the left edge of the platform only up to that rounding.
\<close>

definition collideX :: "platform \<Rightarrow> 'a mover_scheme \<Rightarrow> 'a mover_scheme" where
  "collideX pl b =
     (if aabb b pl then
        (if vx b > 0 then b\<lparr>x := x pl - w b\<rparr>
         else if vx b < 0 then b\<lparr>x := x pl + w pl\<rparr>
         else b)\<lparr>vx := 0\<rparr>
      else b)"

text \<open>The horizontal pass: \<^verbatim>\<open>body.x += vx * dt\<close>, then the loop over the platforms.\<close>

definition passX :: "'a mover_scheme \<Rightarrow> platform list \<Rightarrow> real \<Rightarrow> 'a mover_scheme" where
  "passX b pls dt = fold collideX pls (b\<lparr>x := x b + vx b * dt\<rparr>)"

text \<open>
  One iteration of the vertical loop. \<open>setG\<close> writes the grounded flag of the body:
  \<^verbatim>\<open>onGround\<close> for the player, \<^verbatim>\<open>grounded\<close> for the boss (on which the source also sets
  a property \<^verbatim>\<open>onGround\<close> that nothing reads). \<open>y pl - h b\<close> is the source's
  \<^verbatim>\<open>p.y - body.h\<close>, rounded by a double like the horizontal one.
\<close>

definition collideY ::
  "(bool \<Rightarrow> 'a mover_scheme \<Rightarrow> 'a mover_scheme) \<Rightarrow> platform \<Rightarrow> 'a mover_scheme \<Rightarrow> 'a mover_scheme"
where
  "collideY setG pl b =
     (if aabb b pl then
        (if vy b > 0 then setG True (b\<lparr>y := y pl - h b, vy := 0\<rparr>)
         else if vy b < 0 then b\<lparr>y := y pl + h pl, vy := 0\<rparr>
         else b)
      else b)"

text \<open>The vertical pass: the flag is cleared, \<^verbatim>\<open>body.y += vy * dt\<close>, then the loop.\<close>

definition passY ::
  "(bool \<Rightarrow> 'a mover_scheme \<Rightarrow> 'a mover_scheme) \<Rightarrow> 'a mover_scheme \<Rightarrow> platform list \<Rightarrow> real
     \<Rightarrow> 'a mover_scheme"
where
  "passY setG b pls dt = fold (collideY setG) pls ((setG False b)\<lparr>y := y b + vy b * dt\<rparr>)"

definition moveAndCollide ::
  "(bool \<Rightarrow> 'a mover_scheme \<Rightarrow> 'a mover_scheme) \<Rightarrow> 'a mover_scheme \<Rightarrow> platform list \<Rightarrow> real
     \<Rightarrow> 'a mover_scheme"
where
  "moveAndCollide setG b pls dt = passY setG (passX b pls dt) pls dt"

definition setOnGround :: "bool \<Rightarrow> player \<Rightarrow> player" where
  "setOnGround g p = p\<lparr>onGround := g\<rparr>"

definition setGrounded :: "bool \<Rightarrow> boss \<Rightarrow> boss" where
  "setGrounded g b = b\<lparr>grounded := g\<rparr>"

definition bossIntegrate :: "boss \<Rightarrow> platform list \<Rightarrow> real \<Rightarrow> boss" where
  "bossIntegrate b pls dt =
     moveAndCollide setGrounded (b\<lparr>vy := clamp (vy b + GRAVITY * dt) (- 999) MAX_FALL\<rparr>) pls dt"

text \<open>
  \<^verbatim>\<open>findGroundBelow\<close>: the loop keeps the best platform so far; \<^verbatim>\<open>bestY = Infinity\<close>
  is the case of no platform yet.
\<close>

definition groundStep :: "'a rect_scheme \<Rightarrow> platform \<Rightarrow> platform option \<Rightarrow> platform option" where
  "groundStep a pl best =
     (if x a + w a > x pl \<and> x a < x pl + w pl then
        (if y pl \<ge> y a \<and> (case best of None \<Rightarrow> True | Some bp \<Rightarrow> y pl < y bp) then Some pl
         else best)
      else best)"

definition findGroundBelow :: "'a rect_scheme \<Rightarrow> platform list \<Rightarrow> platform option" where
  "findGroundBelow a pls = fold (groundStep a) pls None"

definition spawnShockwave :: "projectile list \<Rightarrow> boss \<Rightarrow> projectile list" where
  "spawnShockwave ars b =
     ars @
     [\<lparr>x = x b, y = y b + h b - 2, w = 6, h = 2, vx = - 1.6, vy = 0, life = 90, friendly = False\<rparr>,
      \<lparr>x = x b + w b - 6, y = y b + h b - 2, w = 6, h = 2, vx = 1.6, vy = 0, life = 90,
       friendly = False\<rparr>]"

subsection \<open>The steps of \<^verbatim>\<open>update\<close>\<close>

text \<open>
  The blocks of \<^verbatim>\<open>update\<close>, one definition for each, in the order of the source.
\<close>

text \<open>\<^verbatim>\<open>// Move platforms (optional)\<close>: \<^verbatim>\<open>pl.vx && pl.range\<close> holds when both fields
  are present and \<^verbatim>\<open>vx\<close> is not zero.\<close>

definition movePlatform :: "real \<Rightarrow> platform \<Rightarrow> platform" where
  "movePlatform dt pl =
     (case (vx_opt pl, range_opt pl) of
        (Some v, Some (lo, hi)) \<Rightarrow>
          (if v \<noteq> 0 then
             (let pl1 = pl\<lparr>x := x pl + v * dt\<rparr>
              in if x pl1 < lo \<or> x pl1 + w pl1 > hi then pl1\<lparr>vx_opt := Some (v * (- 1))\<rparr>
                 else pl1)
           else pl)
      | _ \<Rightarrow> pl)"

text \<open>\<^verbatim>\<open>// Input\<close>: the crouch gate, the horizontal velocity and the jump. The flag
  \<^verbatim>\<open>onGround\<close> is read once, before the jump clears it.\<close>

definition playerInput :: "keys \<Rightarrow> player \<Rightarrow> player \<times> cue list" where
  "playerInput ks p0 =
     (let wantLeft = left ks \<and> \<not> right ks;
          wantRight = right ks \<and> \<not> left ks;
          og = onGround p0;
          p1 = p0\<lparr>player.crouch := keys.crouch ks \<and> og\<rparr>;
          maxSpeed = (if player.crouch p1 then MOVE_SPEED * 0.6 else MOVE_SPEED);
          p2 = (if wantLeft then p1\<lparr>vx := - maxSpeed, facing := - 1\<rparr>
                else if wantRight then p1\<lparr>vx := maxSpeed, facing := 1\<rparr>
                else (let p1a = p1\<lparr>vx := vx p1 * 0.8\<rparr>
                      in if \<bar>vx p1a\<bar> < 0.02 then p1a\<lparr>vx := 0\<rparr> else p1a))
      in if jump ks \<and> og \<and> \<not> player.crouch p2
         then (p2\<lparr>vy := JUMP_VEL, onGround := False\<rparr>, [SfxJump])
         else (p2, []))"

text \<open>\<^verbatim>\<open>// Fireball\<close>: the player's fire, gated by the time \<open>t\<close>.\<close>

definition fireball ::
  "keys \<Rightarrow> real \<Rightarrow> projectile list \<Rightarrow> player \<Rightarrow> projectile list \<times> player \<times> cue list"
where
  "fireball ks t prs p =
     (if fire ks \<and> t \<ge> canFireAt p then
        (prs @ [\<lparr>x = (if facing p = 1 then x p + w p else x p - 4), y = y p + 4, w = 4, h = 3,
                  vx = real_of_int (facing p) * 2.2, vy = 0, life = 120, friendly = True\<rparr>],
         p\<lparr>canFireAt := t + 5000\<rparr>,
         [SfxShoot])
      else (prs, p, []))"

text \<open>\<^verbatim>\<open>// Gravity\<close>.\<close>

definition gravity :: "real \<Rightarrow> player \<Rightarrow> player" where
  "gravity dt p = p\<lparr>vy := clamp (vy p + GRAVITY * dt) (- 999) MAX_FALL\<rparr>"

text \<open>\<^verbatim>\<open>// Crouch height\<close>.\<close>

definition crouchHeight :: "player \<Rightarrow> player" where
  "crouchHeight p =
     (let baseH = 12; crouchH = 8; prevH = h p;
          p1 = p\<lparr>h := (if player.crouch p then crouchH else baseH)\<rparr>
      in if h p1 < prevH then p1\<lparr>y := y p1 + (prevH - h p1)\<rparr> else p1)"

text \<open>\<^verbatim>\<open>// Camera follow\<close>.\<close>

definition cameraFollow :: "level \<Rightarrow> player \<Rightarrow> real" where
  "cameraFollow lv p = clamp (x p - BASE_W / 2 + w p / 2) 0 (worldW lv - BASE_W)"

text \<open>The ground snap of both enemy kinds:
  \<^verbatim>\<open>const ground = findGroundBelow(e, level.platforms); if (ground) e.y = ground.y - e.h\<close>.
  A double rounds the subtraction, so \<open>y + h\<close> of the enemy is the top of the platform only
  up to that rounding.\<close>

definition snapToGround :: "platform list \<Rightarrow> enemy \<Rightarrow> enemy" where
  "snapToGround pls e =
     (case findGroundBelow e pls of None \<Rightarrow> e | Some ground \<Rightarrow> e\<lparr>y := y ground - h e\<rparr>)"

text \<open>\<^verbatim>\<open>// Enemies AI\<close>: the body of the loop for one enemy; it may push the player and
  append an arrow.\<close>

definition enemyAI ::
  "platform list \<Rightarrow> real \<Rightarrow> enemy \<Rightarrow> player \<Rightarrow> projectile list
     \<Rightarrow> enemy \<times> player \<times> projectile list"
where
  "enemyAI pls dt e p ars =
     (if \<not> enemy.alive e then (e, p, ars)
      else
        (case etype e of
           Swordsman d lo hi sp \<Rightarrow>
             (let e1 = e\<lparr>x := x e + d * sp * dt\<rparr>;
                  e2 = (if x e1 < lo \<or> x e1 + w e1 > hi
                        then e1\<lparr>etype := Swordsman (d * (- 1)) lo hi sp\<rparr> else e1);
                  e3 = snapToGround pls e2
              in (e3,
                  if aabb p e3 then p\<lparr>vx := (if x p < x e3 then - 1 else 1) * 1.2, vy := - 2\<rparr>
                  else p,
                  ars))
         | Archer cd fr \<Rightarrow>
             (let e1 = e\<lparr>etype := Archer (cd - 1) fr\<rparr>;
                  e2 = snapToGround pls e1
              in if cd - 1 \<le> 0 then
                   (e2\<lparr>etype := Archer fr fr\<rparr>,
                    p,
                    ars @ [\<lparr>x = x e2 + w e2, y = y e2 + 6, w = 5, h = 2,
                            vx = (if x p > x e2 then 1.6 else - 1.6), vy = 0, life = 240,
                            friendly = False\<rparr>])
                 else (e2, p, ars))))"

fun enemiesAI ::
  "platform list \<Rightarrow> real \<Rightarrow> enemy list \<Rightarrow> player \<Rightarrow> projectile list
     \<Rightarrow> enemy list \<times> player \<times> projectile list"
where
  "enemiesAI pls dt [] p ars = ([], p, ars)"
| "enemiesAI pls dt (e # es) p ars =
     (case enemyAI pls dt e p ars of
        (e', p', ars') \<Rightarrow>
          (case enemiesAI pls dt es p' ars' of
             (es', p'', ars'') \<Rightarrow> (e' # es', p'', ars'')))"

text \<open>\<^verbatim>\<open>// Projectiles\<close>: one projectile moves and ages; then the filter of the
  collection.\<close>

definition integrate :: "real \<Rightarrow> projectile \<Rightarrow> projectile" where
  "integrate dt pr = pr\<lparr>x := x pr + vx pr * dt, y := y pr + vy pr * dt, life := life pr - 1\<rparr>"

definition keep :: "real \<Rightarrow> projectile \<Rightarrow> bool" where
  "keep ww pr = (life pr > 0 \<and> x pr > - 10 \<and> x pr < ww + 10)"

definition cull :: "real \<Rightarrow> projectile list \<Rightarrow> projectile list" where
  "cull ww prs = filter (keep ww) prs"

text \<open>\<^verbatim>\<open>// Fireball collisions\<close>: the inner loop, one projectile against the enemies in
  order. The loop has no \<^verbatim>\<open>break\<close>: every enemy is tested.\<close>

fun hitEnemies :: "projectile \<Rightarrow> enemy list \<Rightarrow> projectile \<times> enemy list \<times> cue list" where
  "hitEnemies pr [] = (pr, [], [])"
| "hitEnemies pr (e # es) =
     (if \<not> enemy.alive e then
        (case hitEnemies pr es of (pr', es', cs) \<Rightarrow> (pr', e # es', cs))
      else if aabb pr e then
        (case hitEnemies (pr\<lparr>life := 0\<rparr>) es of
           (pr', es', cs) \<Rightarrow> (pr', e\<lparr>enemy.alive := False\<rparr> # es', SfxHit # cs))
      else
        (case hitEnemies pr es of (pr', es', cs) \<Rightarrow> (pr', e # es', cs)))"

text \<open>The test of one projectile against the boss, after the enemies.\<close>

definition hitBoss :: "projectile \<Rightarrow> boss option \<Rightarrow> projectile \<times> boss option \<times> cue list" where
  "hitBoss pr bo =
     (case bo of
        None \<Rightarrow> (pr, None, [])
      | Some b \<Rightarrow>
          (if boss.alive b \<and> aabb pr b then
             (let b1 = b\<lparr>hp := hp b - 1\<rparr>
              in (pr\<lparr>life := 0\<rparr>,
                  Some (if hp b1 \<le> 0 then b1\<lparr>boss.alive := False\<rparr> else b1),
                  [SfxHit]))
           else (pr, Some b, [])))"

text \<open>The body of the outer loop, for one projectile of \<^verbatim>\<open>level.projs\<close>.\<close>

definition hitProj ::
  "projectile \<Rightarrow> enemy list \<Rightarrow> boss option
     \<Rightarrow> projectile \<times> enemy list \<times> boss option \<times> cue list"
where
  "hitProj pr es bo =
     (if \<not> friendly pr then (pr, es, bo, [])
      else
        (case hitEnemies pr es of
           (pr1, es1, cs1) \<Rightarrow>
             (case hitBoss pr1 bo of
                (pr2, bo1, cs2) \<Rightarrow> (pr2, es1, bo1, cs1 @ cs2))))"

fun fireballCollisions ::
  "projectile list \<Rightarrow> enemy list \<Rightarrow> boss option
     \<Rightarrow> projectile list \<times> enemy list \<times> boss option \<times> cue list"
where
  "fireballCollisions [] es bo = ([], es, bo, [])"
| "fireballCollisions (pr # prs) es bo =
     (case hitProj pr es bo of
        (pr', es1, bo1, cs1) \<Rightarrow>
          (case fireballCollisions prs es1 bo1 of
             (prs', es2, bo2, cs2) \<Rightarrow> (pr' # prs', es2, bo2, cs1 @ cs2)))"

text \<open>\<^verbatim>\<open>// Arrows hit player (crouch aids)\<close>: the body of the loop for one arrow. It
  returns the arrow as well, as the loop leaves it.\<close>

definition arrowHit :: "projectile \<Rightarrow> player \<Rightarrow> projectile \<times> player \<times> cue list" where
  "arrowHit ar p =
     (if aabb ar p then
        (let arrowMidY = y ar + h ar / 2;
             headHeight = y p + (if player.crouch p then 4 else 6)
         in if \<not> (player.crouch p \<and> arrowMidY < headHeight)
            then (ar, p\<lparr>vx := - sgn (vx ar) * 1.6, vy := - 2.5\<rparr>, [SfxHit])
            else (ar, p, []))
      else (ar, p, []))"

fun arrowsHitPlayer ::
  "projectile list \<Rightarrow> player \<Rightarrow> projectile list \<times> player \<times> cue list"
where
  "arrowsHitPlayer [] p = ([], p, [])"
| "arrowsHitPlayer (ar # ars) p =
     (case arrowHit ar p of
        (ar', p1, cs1) \<Rightarrow>
          (case arrowsHitPlayer ars p1 of
             (ars', p2, cs2) \<Rightarrow> (ar' # ars', p2, cs1 @ cs2)))"

text \<open>\<^verbatim>\<open>// Boss AI\<close>: the phases of a living boss, without the contact with the
  player. It may append arrows.\<close>

definition bossPhase ::
  "platform list \<Rightarrow> real \<Rightarrow> player \<Rightarrow> boss \<Rightarrow> projectile list \<Rightarrow> boss \<times> projectile list"
where
  "bossPhase pls dt p b0 ars =
     (let b = b0\<lparr>timer := timer b0 + 1\<rparr>
      in if phase b = 0 then
           (let b1 = (if timer b = 1
                      then b\<lparr>vx := (if x p < x b then - 1.2 else 1.2), vy := - 4.5\<rparr> else b);
                b2 = bossIntegrate b1 pls dt
            in (if grounded b2 \<and> timer b2 > 90 then b2\<lparr>phase := 1, timer := 0\<rparr> else b2, ars))
         else if phase b = 1 then
           (let ars1 = (if timer b = 1 then spawnShockwave ars b else ars)
            in (if timer b > 100 then b\<lparr>phase := 2, timer := 0\<rparr> else b, ars1))
         else if phase b = 2 then
           (let ars1 =
                  (if timer b = 1 \<or> timer b = 30 \<or> timer b = 60 then
                     (let d = (if x p < x b then - 1 else 1 :: int)
                      in ars @ [\<lparr>x = x b + (if d = 1 then w b else - 4), y = y b + 7, w = 5,
                                 h = 2, vx = real_of_int d * 1.8, vy = 0, life = 200,
                                 friendly = False\<rparr>])
                   else ars)
            in (if timer b > 100 then b\<lparr>phase := 0, timer := 0\<rparr> else b, ars1))
         else (b, ars))"

text \<open>The whole block: it runs when the level has a boss and the boss is alive, and
  ends with the contact of the boss with the player.\<close>

definition bossAI ::
  "platform list \<Rightarrow> real \<Rightarrow> boss option \<Rightarrow> projectile list \<Rightarrow> player
     \<Rightarrow> boss option \<times> projectile list \<times> player"
where
  "bossAI pls dt bo ars p =
     (case bo of
        None \<Rightarrow> (None, ars, p)
      | Some b0 \<Rightarrow>
          (if boss.alive b0 then
             (case bossPhase pls dt p b0 ars of
                (b, ars1) \<Rightarrow>
                  (Some b, ars1,
                   if aabb b p then p\<lparr>vx := (if x p < x b then - 1.5 else 1.5), vy := - 3\<rparr>
                   else p))
           else (Some b0, ars, p)))"

subsection \<open>\<^verbatim>\<open>update\<close>\<close>

definition update :: "level \<Rightarrow> player \<Rightarrow> keys \<Rightarrow> real \<Rightarrow> real \<Rightarrow> level \<times> player \<times> cue list" where
  "update lv p ks t dt =
     (let pls = map (movePlatform dt) (platforms lv) in
      case playerInput ks p of (p1, c1) \<Rightarrow>
      case fireball ks t (projs lv) p1 of (projs1, p2, c2) \<Rightarrow>
      let p3 = moveAndCollide setOnGround (crouchHeight (gravity dt p2)) pls dt;
          cam = cameraFollow lv p3 in
      case enemiesAI pls dt (enemies lv) p3 (arrows lv) of (es1, p4, arrows1) \<Rightarrow>
      let projs2 = cull (worldW lv) (map (integrate dt) projs1);
          arrows2 = cull (worldW lv) (map (integrate dt) arrows1) in
      case fireballCollisions projs2 es1 (boss lv) of (projs3, es2, boss1, c3) \<Rightarrow>
      case arrowsHitPlayer arrows2 p4 of (arrows3, p5, c4) \<Rightarrow>
      case bossAI pls dt boss1 arrows3 p5 of (boss2, arrows4, p6) \<Rightarrow>
        (lv\<lparr>tick := tick lv + 1, platforms := pls, enemies := es2, arrows := arrows4,
            projs := projs3, boss := boss2, cameraX := cam\<rparr>,
         p6,
         c1 @ c2 @ c3 @ c4))"

subsection \<open>Runs over several ticks\<close>


text \<open>
  Consecutive ticks of the boss AI of a living boss: \<open>bossRun ins b\<close> runs the phases of
  the boss on the inputs \<open>ins\<close> (the platforms, the frame scale and the player of each tick)
  and collects the arrows that the boss spawns.
\<close>

fun bossRun :: "(platform list \<times> real \<times> player) list \<Rightarrow> boss \<Rightarrow> boss \<times> projectile list" where
  "bossRun [] b = (b, [])"
| "bossRun ((pls, dt, p) # ins) b =
     (case bossPhase pls dt p b [] of
        (b1, new) \<Rightarrow> (case bossRun ins b1 of (b2, later) \<Rightarrow> (b2, new @ later)))"

subsection \<open>The tests of the source and the words of the specification\<close>

text \<open>
  The condition under which an arrow that is tested against the player pushes the player,
  in the words of the specification: the boxes overlap, unless the player crouches and the
  vertical midpoint of the arrow is above the head line, 4 below the player's top edge.
\<close>

definition knocks :: "player \<Rightarrow> projectile \<Rightarrow> bool" where
  "knocks p ar = (aabb ar p \<and> \<not> (player.crouch p \<and> y ar + h ar / 2 < y p + 4))"

text \<open>The test of the inner loop of the fireball collisions: a living enemy whose box overlaps
  the projectile.\<close>

definition struck :: "projectile \<Rightarrow> enemy \<Rightarrow> bool" where
  "struck pr e = (enemy.alive e \<and> aabb pr e)"

text \<open>The test of a projectile against the boss: the level has a boss, it is alive and its box
  overlaps the projectile.\<close>

definition bossStruck :: "projectile \<Rightarrow> boss option \<Rightarrow> bool" where
  "bossStruck pr bo = (case bo of None \<Rightarrow> False | Some b \<Rightarrow> boss.alive b \<and> aabb pr b)"

text \<open>The test of \<^verbatim>\<open>findGroundBelow\<close> on a platform, as the source has it: the horizontal
  spans overlap and the top of the platform is at or below the top edge \<open>y\<close> of the entity.\<close>

definition groundCandidate :: "'a rect_scheme \<Rightarrow> platform \<Rightarrow> bool" where
  "groundCandidate a pl = (x a + w a > x pl \<and> x a < x pl + w pl \<and> y pl \<ge> y a)"

text \<open>The same test in the words of the specification: the top of the platform is at or
  below the feet \<open>y + h\<close> of the entity.\<close>

definition atOrBelowFeet :: "'a rect_scheme \<Rightarrow> platform \<Rightarrow> bool" where
  "atOrBelowFeet a pl = (x a + w a > x pl \<and> x a < x pl + w pl \<and> y pl \<ge> y a + h a)"

text \<open>The arrow of the volley, in the words of the specification: one hostile projectile that
  leaves the boss on the side of the player and flies toward that side.\<close>

definition volleyArrow :: "player \<Rightarrow> boss \<Rightarrow> projectile" where
  "volleyArrow p b =
     \<lparr>x = (if x p < x b then x b - 4 else x b + w b), y = y b + 7, w = 5, h = 2,
      vx = (if x p < x b then - 1.8 else 1.8), vy = 0, life = 200, friendly = False\<rparr>"

text \<open>A writer of the grounded flag leaves the box and the vertical velocity of the body as
  they are.\<close>

definition keepsBox :: "(bool \<Rightarrow> 'a mover_scheme \<Rightarrow> 'a mover_scheme) \<Rightarrow> bool" where
  "keepsBox setG =
     (\<forall>g c. x (setG g c) = x c \<and> y (setG g c) = y c \<and> w (setG g c) = w c \<and>
            h (setG g c) = h c \<and> vy (setG g c) = vy c)"

subsection \<open>Sample states\<close>

text \<open>A player standing on a floor at 110, the same player crouched, key snapshots with
  nothing held and with the fire key held, and an arrow flying left at the player's height.\<close>

definition standing :: player where
  "standing = (makePlayer 16 98)\<lparr>onGround := True\<rparr>"


definition noKeys :: keys where
  "noKeys = \<lparr>left = False, right = False, up = False, down = False, jump = False, fire = False,
             keys.crouch = False\<rparr>"



text \<open>A level: a floor, two archers that stand at the same place, a boss in its shockwave
  phase that stands over them, and a fireball that is about to reach all three. \<open>duelAfter\<close>
  is the level one tick later.\<close>

definition floor110 :: platform where
  "floor110 = \<lparr>x = 0, y = 110, w = 640, h = 8, vx_opt = None, range_opt = None\<rparr>"

definition guard :: enemy where
  "guard = \<lparr>x = 300, y = 96, w = 10, h = 14, enemy.alive = True, etype = Archer 100 180\<rparr>"

definition warlord :: boss where
  "warlord = \<lparr>x = 295, y = 90, w = 18, h = 20, vx = 0, vy = 0, hp = 3, boss.alive = True,
               phase = 1, timer = 5, grounded = True\<rparr>"

definition fireballShot :: projectile where
  "fireballShot = \<lparr>x = 298, y = 100, w = 4, h = 3, vx = 2.2, vy = 0, life = 100, friendly = True\<rparr>"

definition duel :: level where
  "duel = \<lparr>kind = BossLevel, platforms = [floor110], enemies = [guard, guard], arrows = [],
           projs = [fireballShot], gem = \<lparr>x = 608, y = 90, w = 12, h = 12\<rparr>, boss = Some warlord,
           cameraX = 0, worldW = 640, worldH = BASE_H, tick = 0\<rparr>"

definition guardDead :: enemy where
  "guardDead = guard\<lparr>etype := Archer 99 180, enemy.alive := False\<rparr>"

definition duelAfter :: level where
  "duelAfter = duel\<lparr>tick := 1, enemies := [guardDead, guardDead],
                     projs := [fireballShot\<lparr>x := 300.2, life := 0\<rparr>],
                     boss := Some (warlord\<lparr>hp := 2, timer := 6\<rparr>)\<rparr>"

text \<open>Platforms: a ledge whose top lies between the top edge and the feet of the archer
  \<open>guard\<close>, two walls that overlap each other, a wall on the left of the standing player,
  a crate at the place of that player, and a shelf just above the floor.\<close>

definition ledge :: platform where
  "ledge = \<lparr>x = 295, y = 100, w = 20, h = 6, vx_opt = None, range_opt = None\<rparr>"

definition wallA :: platform where
  "wallA = \<lparr>x = 28, y = 90, w = 10, h = 30, vx_opt = None, range_opt = None\<rparr>"

definition wallB :: platform where
  "wallB = \<lparr>x = 27, y = 90, w = 4, h = 30, vx_opt = None, range_opt = None\<rparr>"

definition wallL :: platform where
  "wallL = \<lparr>x = 2, y = 90, w = 10, h = 30, vx_opt = None, range_opt = None\<rparr>"

definition crate :: platform where
  "crate = \<lparr>x = 20, y = 100, w = 10, h = 5, vx_opt = None, range_opt = None\<rparr>"

definition shelf :: platform where
  "shelf = \<lparr>x = 0, y = 105, w = 640, h = 3, vx_opt = None, range_opt = None\<rparr>"

text \<open>The boss of the boss level as the level starts, one tick of that level at the nominal
  frame scale with the player at its spawn point, the same with the player on the right of
  the boss, and the boss after its first leap.\<close>

definition boss0 :: boss where
  "boss0 = \<lparr>x = 640 - 90, y = 110 - 20, w = 18, h = 20, vx = 0, vy = 0, hp = 3,
            boss.alive = True, phase = 0, timer = 0, grounded = True\<rparr>"

definition bossTick :: "platform list \<times> real \<times> player" where
  "bossTick = ([floor110], 1, makePlayer 24 40)"

definition bossTickR :: "platform list \<times> real \<times> player" where
  "bossTickR = ([floor110], 1, makePlayer 600 40)"

definition bossLanded :: boss where
  "bossLanded = boss0\<lparr>x := 440.8, vx := - 1.2, phase := 1, timer := 0\<rparr>"

section \<open>Properties\<close>

subsection \<open>What the early steps of a tick leave unchanged\<close>




subsection \<open>Crouch height\<close>



subsection \<open>Arrows against the player\<close>

lemma arrowHit_eq:
  "arrowHit ar p =
     (if knocks p ar then (ar, p\<lparr>vx := - sgn (vx ar) * 1.6, vy := - 2.5\<rparr>, [SfxHit])
      else (ar, p, []))"
  by (simp add: arrowHit_def knocks_def Let_def)

lemma knocks_velocity: "knocks (p\<lparr>vx := a, vy := b\<rparr>) = knocks p"
  by (rule ext) (simp add: knocks_def aabb_def)

lemma arrowsHitPlayer_eq:
  "arrowsHitPlayer ars p =
     (ars,
      (case rev (filter (knocks p) ars) of
         [] \<Rightarrow> p
       | ar # _ \<Rightarrow> p\<lparr>vx := - sgn (vx ar) * 1.6, vy := - 2.5\<rparr>),
      replicate (length (filter (knocks p) ars)) SfxHit)"
proof (induction ars arbitrary: p)
  case Nil
  show ?case by simp
next
  case (Cons ar ars)
  show ?case
  proof (cases "knocks p ar")
    case True
    then show ?thesis
      by (simp add: arrowHit_eq Cons.IH knocks_velocity split: list.splits)
  next
    case False
    then show ?thesis
      by (simp add: arrowHit_eq Cons.IH)
  qed
qed



subsection \<open>The tick as a whole\<close>

lemma update_unfold:
  obtains p1 c1 projs1 p2 c2 es1 p4 arrows1 projs3 es2 boss1 c3 arrows3 p5 c4 boss2 arrows4 p6
  where "playerInput ks p = (p1, c1)"
    and "fireball ks t (projs lv) p1 = (projs1, p2, c2)"
    and "enemiesAI (map (movePlatform dt) (platforms lv)) dt (enemies lv)
           (moveAndCollide setOnGround (crouchHeight (gravity dt p2))
              (map (movePlatform dt) (platforms lv)) dt)
           (arrows lv) = (es1, p4, arrows1)"
    and "fireballCollisions (cull (worldW lv) (map (integrate dt) projs1)) es1 (boss lv)
           = (projs3, es2, boss1, c3)"
    and "arrowsHitPlayer (cull (worldW lv) (map (integrate dt) arrows1)) p4 = (arrows3, p5, c4)"
    and "bossAI (map (movePlatform dt) (platforms lv)) dt boss1 arrows3 p5 = (boss2, arrows4, p6)"
    and "update lv p ks t dt =
           (lv\<lparr>tick := tick lv + 1, platforms := map (movePlatform dt) (platforms lv),
               enemies := es2, arrows := arrows4, projs := projs3, boss := boss2,
               cameraX := cameraFollow lv
                 (moveAndCollide setOnGround (crouchHeight (gravity dt p2))
                    (map (movePlatform dt) (platforms lv)) dt)\<rparr>,
            p6, c1 @ c2 @ c3 @ c4)"
proof -
  obtain p1 c1 where a: "playerInput ks p = (p1, c1)" by (cases "playerInput ks p")
  obtain projs1 p2 c2 where b: "fireball ks t (projs lv) p1 = (projs1, p2, c2)"
    by (cases "fireball ks t (projs lv) p1")
  obtain es1 p4 arrows1 where c:
    "enemiesAI (map (movePlatform dt) (platforms lv)) dt (enemies lv)
           (moveAndCollide setOnGround (crouchHeight (gravity dt p2))
              (map (movePlatform dt) (platforms lv)) dt)
           (arrows lv) = (es1, p4, arrows1)"
    using prod_cases3 by blast
  obtain projs3 es2 boss1 c3 where d:
    "fireballCollisions (cull (worldW lv) (map (integrate dt) projs1)) es1 (boss lv)
           = (projs3, es2, boss1, c3)"
    using prod_cases4 by blast
  obtain arrows3 p5 c4 where e:
    "arrowsHitPlayer (cull (worldW lv) (map (integrate dt) arrows1)) p4 = (arrows3, p5, c4)"
    using prod_cases3 by blast
  obtain boss2 arrows4 p6 where f:
    "bossAI (map (movePlatform dt) (platforms lv)) dt boss1 arrows3 p5 = (boss2, arrows4, p6)"
    using prod_cases3 by blast
  show thesis
    by (rule that [OF a b c d e f]) (simp add: update_def Let_def a b c d e f)
qed


lemma enemyAI_arrows: "\<exists>new. snd (snd (enemyAI pls dt e p ars)) = ars @ new"
  by (cases "etype e") (simp_all add: enemyAI_def Let_def)

lemma enemiesAI_arrows: "\<exists>new. snd (snd (enemiesAI pls dt es p ars)) = ars @ new"
proof (induction es arbitrary: p ars)
  case Nil
  show ?case by simp
next
  case (Cons e es)
  obtain e' p' ars' where s: "enemyAI pls dt e p ars = (e', p', ars')"
    using prod_cases3 by blast
  obtain new1 where n1: "ars' = ars @ new1"
    using enemyAI_arrows [of pls dt e p ars] by (auto simp add: s)
  obtain new2 where n2: "snd (snd (enemiesAI pls dt es p' ars')) = ars' @ new2"
    using Cons.IH by blast
  show ?case
    using n1 n2 by (auto simp add: s split: prod.splits)
qed

lemma bossPhase_arrows: "\<exists>new. snd (bossPhase pls dt p b ars) = ars @ new"
  by (simp add: bossPhase_def Let_def spawnShockwave_def)

lemma bossAI_arrows: "\<exists>new. fst (snd (bossAI pls dt bo ars p)) = ars @ new"
proof (cases bo)
  case None
  then show ?thesis by (simp add: bossAI_def)
next
  case (Some b)
  obtain new where "snd (bossPhase pls dt p b ars) = ars @ new"
    using bossPhase_arrows by blast
  then show ?thesis
    by (auto simp add: bossAI_def Some split: prod.splits)
qed

lemma cull_append: "cull ww (as @ bs) = cull ww as @ cull ww bs"
  by (simp add: cull_def)

text \<open>
  Claim C8. The test of an arrow against the player returns the arrow as it was, and so does
  the loop over the collection; of the player only the velocity may differ afterwards. Over a
  whole tick the arrows that the level held at the start, moved by their velocity and aged by
  one, and filtered by lifetime and by the 10-unit margin around the world, are the first
  entries of the collection at the end of the tick, whether or not they met the player.
\<close>

theorem arrows_not_consumed_by_player_hit:
  "fst (arrowHit ar p) = ar \<and>
   fst (arrowsHitPlayer ars p) = ars \<and>
   (fst (snd (arrowsHitPlayer ars p)))\<lparr>vx := vx p, vy := vy p\<rparr> = p \<and>
   prefix (cull (worldW lv) (map (integrate dt) (arrows lv)))
          (arrows (fst (update lv p ks t dt)))"
proof -
  have a: "fst (arrowHit ar p) = ar"
    by (simp add: arrowHit_def Let_def)
  have b: "fst (arrowsHitPlayer ars p) = ars"
    by (simp add: arrowsHitPlayer_eq)
  have c: "(fst (snd (arrowsHitPlayer ars p)))\<lparr>vx := vx p, vy := vy p\<rparr> = p"
    by (simp add: arrowsHitPlayer_eq split: list.splits)
  have d: "prefix (cull (worldW lv) (map (integrate dt) (arrows lv)))
          (arrows (fst (update lv p ks t dt)))"
  proof (rule update_unfold [of ks p t lv dt])
    fix p1 c1 projs1 p2 c2 es1 p4 arrows1 projs3 es2 boss1 c3 arrows3 p5 c4 boss2 arrows4 p6
    assume en: "enemiesAI (map (movePlatform dt) (platforms lv)) dt (enemies lv)
           (moveAndCollide setOnGround (crouchHeight (gravity dt p2))
              (map (movePlatform dt) (platforms lv)) dt)
           (arrows lv) = (es1, p4, arrows1)"
      and ah: "arrowsHitPlayer (cull (worldW lv) (map (integrate dt) arrows1)) p4
                 = (arrows3, p5, c4)"
      and bo: "bossAI (map (movePlatform dt) (platforms lv)) dt boss1 arrows3 p5
                 = (boss2, arrows4, p6)"
      and up: "update lv p ks t dt =
           (lv\<lparr>tick := tick lv + 1, platforms := map (movePlatform dt) (platforms lv),
               enemies := es2, arrows := arrows4, projs := projs3, boss := boss2,
               cameraX := cameraFollow lv
                 (moveAndCollide setOnGround (crouchHeight (gravity dt p2))
                    (map (movePlatform dt) (platforms lv)) dt)\<rparr>,
            p6, c1 @ c2 @ c3 @ c4)"
    obtain new1 where n1: "arrows1 = arrows lv @ new1"
      using enemiesAI_arrows [of "map (movePlatform dt) (platforms lv)" dt "enemies lv"
          "moveAndCollide setOnGround (crouchHeight (gravity dt p2))
              (map (movePlatform dt) (platforms lv)) dt" "arrows lv"]
      by (auto simp add: en)
    have a3: "arrows3 = cull (worldW lv) (map (integrate dt) arrows1)"
      using ah by (simp add: arrowsHitPlayer_eq)
    obtain new2 where n2: "arrows4 = arrows3 @ new2"
      using bossAI_arrows [of "map (movePlatform dt) (platforms lv)" dt boss1 arrows3 p5]
      by (auto simp add: bo)
    show ?thesis
      by (simp add: up n2 a3 n1 cull_append)
  qed
  show ?thesis using a b c d by blast
qed

subsection \<open>The fire cooldown\<close>










lemma aabb_life: "aabb (pr\<lparr>life := n\<rparr>) = aabb pr"
  by (rule ext) (simp add: aabb_def)

lemma struck_life: "struck (pr\<lparr>life := n\<rparr>) = struck pr"
  by (rule ext) (simp add: struck_def aabb_def)

lemma hitEnemies_eq:
  "hitEnemies pr es =
     (if filter (struck pr) es = [] then pr else pr\<lparr>life := 0\<rparr>,
      map (\<lambda>e. if struck pr e then e\<lparr>enemy.alive := False\<rparr> else e) es,
      replicate (length (filter (struck pr) es)) SfxHit)"
proof (induction es arbitrary: pr)
  case Nil
  show ?case by simp
next
  case (Cons e es)
  show ?case
    by (simp add: Cons.IH struck_life) (auto simp add: struck_def)
qed















subsection \<open>Fireballs against the enemies and the boss\<close>

lemma bossStruck_life: "bossStruck (pr\<lparr>life := n\<rparr>) = bossStruck pr"
  by (rule ext) (simp add: bossStruck_def aabb_def split: option.splits)

lemma hitBoss_eq:
  "hitBoss pr bo =
     (if bossStruck pr bo
      then (pr\<lparr>life := 0\<rparr>,
            map_option (\<lambda>b. b\<lparr>hp := hp b - 1, boss.alive := (0 < hp b - 1)\<rparr>) bo, [SfxHit])
      else (pr, bo, []))"
  by (cases bo) (auto simp add: hitBoss_def bossStruck_def Let_def)

lemma hitProj_eq:
  "hitProj pr es bo =
     (if friendly pr then
        (if filter (struck pr) es = [] \<and> \<not> bossStruck pr bo then pr else pr\<lparr>life := 0\<rparr>,
         map (\<lambda>e. if struck pr e then e\<lparr>enemy.alive := False\<rparr> else e) es,
         if bossStruck pr bo
         then map_option (\<lambda>b. b\<lparr>hp := hp b - 1, boss.alive := (0 < hp b - 1)\<rparr>) bo else bo,
         replicate (length (filter (struck pr) es) + (if bossStruck pr bo then 1 else 0)) SfxHit)
      else (pr, es, bo, []))"
  by (simp add: hitProj_def hitEnemies_eq hitBoss_eq bossStruck_life replicate_add)

subsection \<open>One tick of the sample level\<close>

lemma floor_still: "map (movePlatform dt) [floor110] = [floor110]"
  by (simp add: movePlatform_def floor110_def)

lemma standing_input: "playerInput noKeys standing = (standing, [])"
  by (simp add: playerInput_def Let_def standing_def makePlayer_def noKeys_def MOVE_SPEED_def)

lemma standing_no_fire: "fireball noKeys t prs standing = (prs, standing, [])"
  by (simp add: fireball_def noKeys_def)

lemma standing_lands:
  "moveAndCollide setOnGround (crouchHeight (gravity 1 standing)) [floor110] 1 = standing"
  by (simp add: crouchHeight_def gravity_def clamp_def GRAVITY_def MAX_FALL_def
       moveAndCollide_def passX_def passY_def collideX_def collideY_def setOnGround_def
       aabb_def standing_def makePlayer_def floor110_def)

lemma guard_waits:
  "enemyAI [floor110] 1 guard standing ars = (guard\<lparr>etype := Archer 99 180\<rparr>, standing, ars)"
  by (simp add: enemyAI_def Let_def guard_def snapToGround_def findGroundBelow_def groundStep_def
      floor110_def)

lemma guards_wait:
  "enemiesAI [floor110] 1 [guard, guard] standing ars =
     ([guard\<lparr>etype := Archer 99 180\<rparr>, guard\<lparr>etype := Archer 99 180\<rparr>], standing, ars)"
  by (simp add: guard_waits)

lemma shot_kept:
  "cull 640 (map (integrate 1) [fireballShot]) = [fireballShot\<lparr>x := 300.2, life := 99\<rparr>]"
  by (simp add: cull_def keep_def integrate_def fireballShot_def)

lemma shot_strikes:
  "fireballCollisions [fireballShot\<lparr>x := 300.2, life := 99\<rparr>]
     [guard\<lparr>etype := Archer 99 180\<rparr>, guard\<lparr>etype := Archer 99 180\<rparr>] (Some warlord) =
     ([fireballShot\<lparr>x := 300.2, life := 0\<rparr>], [guardDead, guardDead],
      Some (warlord\<lparr>hp := 2\<rparr>), [SfxHit, SfxHit, SfxHit])"
  by (simp add: hitProj_eq struck_def bossStruck_def aabb_def fireballShot_def guard_def
      warlord_def guardDead_def)

lemma warlord_waits:
  "bossAI [floor110] 1 (Some (warlord\<lparr>hp := 2\<rparr>)) [] standing
     = (Some (warlord\<lparr>hp := 2, timer := 6\<rparr>), [], standing)"
  by (simp add: bossAI_def bossPhase_def Let_def warlord_def aabb_def standing_def makePlayer_def)

lemma duel_tick: "update duel standing noKeys 0 1 = (duelAfter, standing, [SfxHit, SfxHit, SfxHit])"
proof -
  have a: "platforms duel = [floor110]" "enemies duel = [guard, guard]" "arrows duel = []"
    "projs duel = [fireballShot]" "boss duel = Some warlord" "worldW duel = 640"
    by (simp_all add: duel_def)
  have c: "cameraFollow duel standing = 0"
    by (simp add: cameraFollow_def duel_def standing_def makePlayer_def clamp_def BASE_W_def)
  have n: "cull 640 (map (integrate 1) []) = []" "arrowsHitPlayer [] standing = ([], standing, [])"
    by (simp_all add: cull_def)
  have u: "duel\<lparr>tick := tick duel + 1, platforms := [floor110], enemies := [guardDead, guardDead],
                arrows := [], projs := [fireballShot\<lparr>x := 300.2, life := 0\<rparr>],
                boss := Some (warlord\<lparr>hp := 2, timer := 6\<rparr>), cameraX := 0\<rparr> = duelAfter"
    by (simp add: duelAfter_def duel_def)
  show ?thesis
    by (simp only: update_def Let_def a floor_still standing_input prod.case standing_no_fire
        standing_lands c guards_wait shot_kept shot_strikes n warlord_waits u append_Nil
        append_Nil2)
qed

subsection \<open>The order of the filter and the hits\<close>










subsection \<open>The tick after the hit\<close>







text \<open>
  Claim C2, as amended. For a friendly projectile the hit resolution tests every enemy and
  then the boss, whatever the earlier tests found: every living enemy whose box overlaps the
  projectile is marked dead, a living boss whose box overlaps it loses exactly one hit point
  (and is dead when none is left), and there is one hit cue for each of them. The lifetime
  of the projectile is 0 afterwards when at least one target was hit, and unchanged
  otherwise. A projectile that is not friendly changes nothing.
\<close>

theorem hit_resolution_tests_every_target:
  "hitProj pr es bo =
     (if friendly pr then
        (if filter (struck pr) es = [] \<and> \<not> bossStruck pr bo then pr else pr\<lparr>life := 0\<rparr>,
         map (\<lambda>e. if struck pr e then e\<lparr>enemy.alive := False\<rparr> else e) es,
         if bossStruck pr bo
         then map_option (\<lambda>b. b\<lparr>hp := hp b - 1, boss.alive := (0 < hp b - 1)\<rparr>) bo else bo,
         replicate (length (filter (struck pr) es) + (if bossStruck pr bo then 1 else 0)) SfxHit)
      else (pr, es, bo, []))"
proof (cases "friendly pr")
  case True
  obtain pr1 where enemies_first: "hitEnemies pr es =
      (pr1, map (\<lambda>e. if struck pr e then e\<lparr>enemy.alive := False\<rparr> else e) es,
       replicate (length (filter (struck pr) es)) SfxHit)"
    and pr1: "pr1 = (if filter (struck pr) es = [] then pr else pr\<lparr>life := 0\<rparr>)"
    by (simp add: hitEnemies_eq)
  have boss_next: "bossStruck pr1 bo = bossStruck pr bo"
    by (simp add: pr1 bossStruck_life)
  show ?thesis
    using True by (simp add: hitProj_def enemies_first hitBoss_eq boss_next replicate_add)
      (simp add: pr1)
next
  case False
  then show ?thesis by (simp add: hitProj_def)
qed

theorem hit_resolution_tests_every_target_witness:
  "hitProj (fireballShot\<lparr>x := 300.2, life := 99\<rparr>) [guard, guardDead, guard] (Some warlord) =
     (fireballShot\<lparr>x := 300.2, life := 0\<rparr>,
      [guard\<lparr>enemy.alive := False\<rparr>, guardDead, guard\<lparr>enemy.alive := False\<rparr>],
      Some (warlord\<lparr>hp := 2\<rparr>), [SfxHit, SfxHit, SfxHit])"
  using hit_resolution_tests_every_target
          [of "fireballShot\<lparr>x := 300.2, life := 99\<rparr>" "[guard, guardDead, guard]" "Some warlord"]
  by (simp add: struck_def bossStruck_def aabb_def fireballShot_def guard_def guardDead_def
      warlord_def)

text \<open>
  The claim C2 as it was stated fails on the level \<open>duel\<close>: in one tick the one fireball kills
  both archers and takes a hit point from the boss, with three hit cues.
\<close>

theorem one_hit_per_projectile_counterexample:
  "map friendly (projs duel) = [True] \<and>
   map enemy.alive (enemies duel) = [True, True] \<and> map_option hp (boss duel) = Some 3 \<and>
   map enemy.alive (enemies (fst (update duel standing noKeys 0 1))) = [False, False] \<and>
   map_option hp (boss (fst (update duel standing noKeys 0 1))) = Some 2 \<and>
   snd (snd (update duel standing noKeys 0 1)) = [SfxHit, SfxHit, SfxHit]"
  by (simp add: duel_tick) (simp add: duelAfter_def duel_def fireballShot_def guard_def
      guardDead_def warlord_def)

subsection \<open>The ground under an enemy\<close>

lemma groundStep_eq:
  "groundStep a pl best =
     (if groundCandidate a pl \<and> (case best of None \<Rightarrow> True | Some bp \<Rightarrow> y pl < y bp)
      then Some pl else best)"
  by (simp add: groundStep_def groundCandidate_def)

lemma ground_fold_None:
  "(fold (groundStep a) pls best = None) = (best = None \<and> list_all (\<lambda>pl. \<not> groundCandidate a pl) pls)"
proof (induction pls arbitrary: best)
  case Nil
  show ?case by simp
next
  case (Cons pl pls)
  have "(fold (groundStep a) (pl # pls) best = None) =
          (groundStep a pl best = None \<and> list_all (\<lambda>pl. \<not> groundCandidate a pl) pls)"
    by (simp add: Cons.IH)
  then show ?case
    using groundStep_eq [of a pl best] by (cases best) auto
qed

lemma ground_fold_Some:
  assumes "fold (groundStep a) pls best = Some g"
  shows "((g \<in> set pls \<and> groundCandidate a g) \<or> best = Some g) \<and>
         (\<forall>q \<in> set pls. groundCandidate a q \<longrightarrow> y g \<le> y q) \<and>
         (\<forall>bp. best = Some bp \<longrightarrow> y g \<le> y bp)"
  using assms
proof (induction pls arbitrary: best)
  case Nil
  then show ?case by simp
next
  case (Cons pl pls)
  let ?b = "groundStep a pl best"
  have f: "fold (groundStep a) pls ?b = Some g"
    using Cons.prems by simp
  note ih = Cons.IH [OF f]
  show ?case
  proof (cases "groundCandidate a pl \<and> (case best of None \<Rightarrow> True | Some bp \<Rightarrow> y pl < y bp)")
    case True
    then have b: "?b = Some pl" using groundStep_eq [of a pl best] by simp
    from ih have 1: "(g \<in> set pls \<and> groundCandidate a g) \<or> g = pl"
      and 2: "\<forall>q \<in> set pls. groundCandidate a q \<longrightarrow> y g \<le> y q"
      and 3: "y g \<le> y pl"
      by (auto simp add: b)
    from 1 True have "(g \<in> set (pl # pls) \<and> groundCandidate a g)" by auto
    moreover have "\<forall>q \<in> set (pl # pls). groundCandidate a q \<longrightarrow> y g \<le> y q"
      using 2 3 by simp
    moreover have "\<forall>bp. best = Some bp \<longrightarrow> y g \<le> y bp"
      using True 3 by auto
    ultimately show ?thesis by blast
  next
    case False
    then have b: "?b = best" using groundStep_eq [of a pl best] by auto
    from ih have 1: "(g \<in> set pls \<and> groundCandidate a g) \<or> best = Some g"
      and 2: "\<forall>q \<in> set pls. groundCandidate a q \<longrightarrow> y g \<le> y q"
      and 3: "\<forall>bp. best = Some bp \<longrightarrow> y g \<le> y bp"
      by (auto simp add: b)
    have "groundCandidate a pl \<longrightarrow> y g \<le> y pl"
    proof
      assume c: "groundCandidate a pl"
      with False obtain bp where "best = Some bp" "\<not> y pl < y bp"
        by (cases best) auto
      with 3 show "y g \<le> y pl" by force
    qed
    then have "\<forall>q \<in> set (pl # pls). groundCandidate a q \<longrightarrow> y g \<le> y q"
      using 2 by simp
    moreover have "(g \<in> set (pl # pls) \<and> groundCandidate a g) \<or> best = Some g"
      using 1 by auto
    ultimately show ?thesis using 3 by blast
  qed
qed

lemma findGroundBelow_etype: "findGroundBelow (e\<lparr>etype := k\<rparr>) pls = findGroundBelow e pls"
proof -
  have "groundStep (e\<lparr>etype := k\<rparr>) = groundStep e"
    by (rule ext)+ (simp add: groundStep_def)
  then show ?thesis by (simp add: findGroundBelow_def)
qed

lemma snapToGround_fields:
  "x (snapToGround pls e) = x e" "w (snapToGround pls e) = w e" "h (snapToGround pls e) = h e"
  "y (snapToGround pls (e\<lparr>etype := k\<rparr>)) = y (snapToGround pls e)"
  by (simp_all add: snapToGround_def findGroundBelow_etype split: option.splits)

lemma enemyAI_snaps:
  assumes "enemy.alive e"
  shows "y (fst (enemyAI pls dt e p ars)) =
           y (snapToGround pls (e\<lparr>x := x (fst (enemyAI pls dt e p ars))\<rparr>))"
proof (cases "etype e")
  case (Swordsman d lo hi sp)
  then show ?thesis
    using assms by (simp add: enemyAI_def Let_def snapToGround_fields)
next
  case (Archer cd fr)
  then show ?thesis
    using assms by (simp add: enemyAI_def Let_def snapToGround_fields)
qed

text \<open>
  Claim C4, as amended. \<^verbatim>\<open>findGroundBelow\<close> finds nothing exactly when no platform of the
  list overlaps the horizontal span of the entity with its top at or below the top edge \<open>y\<close>
  of the entity; otherwise it returns such a platform of the list, and none of them has a
  smaller \<open>y\<close>. The snap sets \<open>y\<close> of the enemy to the \<open>y\<close> of that platform minus the height
  of the enemy, the one subtraction of the source (which puts the bottom edge on the top of
  the platform up to the rounding of that subtraction), and leaves the enemy as it is when
  there is none. In the AI of a living enemy the snap is the one for the enemy at its
  position of this tick.
\<close>

theorem ground_query_from_top_edge:
  "(findGroundBelow a pls = None) = list_all (\<lambda>pl. \<not> groundCandidate a pl) pls \<and>
   (\<forall>g. findGroundBelow a pls = Some g \<longrightarrow>
      g \<in> set pls \<and> groundCandidate a g \<and>
      (\<forall>q \<in> set pls. groundCandidate a q \<longrightarrow> y g \<le> y q)) \<and>
   (case findGroundBelow e pls of
      None \<Rightarrow> snapToGround pls e = e
    | Some g \<Rightarrow> snapToGround pls e = e\<lparr>y := y g - h e\<rparr>) \<and>
   (enemy.alive e \<longrightarrow>
      y (fst (enemyAI pls dt e p ars)) =
        y (snapToGround pls (e\<lparr>x := x (fst (enemyAI pls dt e p ars))\<rparr>)))"
proof -
  have 1: "(findGroundBelow a pls = None) = list_all (\<lambda>pl. \<not> groundCandidate a pl) pls"
    by (simp add: findGroundBelow_def ground_fold_None)
  have 2: "\<forall>g. findGroundBelow a pls = Some g \<longrightarrow>
      g \<in> set pls \<and> groundCandidate a g \<and>
      (\<forall>q \<in> set pls. groundCandidate a q \<longrightarrow> y g \<le> y q)"
    using ground_fold_Some [of a pls None] by (simp add: findGroundBelow_def)
  have 3: "case findGroundBelow e pls of
      None \<Rightarrow> snapToGround pls e = e
    | Some g \<Rightarrow> snapToGround pls e = e\<lparr>y := y g - h e\<rparr>"
    by (simp add: snapToGround_def split: option.splits)
  show ?thesis
    using 1 2 3 enemyAI_snaps [of e pls dt p ars] by blast
qed

theorem ground_query_from_top_edge_witness:
  "findGroundBelow guard [floor110, ledge] = Some ledge \<and> groundCandidate guard ledge \<and>
   groundCandidate guard floor110 \<and> y ledge \<le> y floor110 \<and>
   snapToGround [floor110, ledge] guard = guard\<lparr>y := 86\<rparr> \<and>
   enemy.alive guard \<and> y (fst (enemyAI [floor110, ledge] 1 guard standing [])) = 86"
  using ground_query_from_top_edge [of guard "[floor110, ledge]" guard 1 standing "[]"]
  by (simp add: findGroundBelow_def groundStep_def groundCandidate_def snapToGround_def
      enemyAI_def Let_def guard_def floor110_def ledge_def)

text \<open>
  The claim C4 as it was stated fails for the archer \<open>guard\<close>, whose feet are at 110, over the
  floor at 110 and the ledge at 100: the query returns the ledge, whose top is above the
  feet, and the archer is lifted to \<open>y = 86\<close>.
\<close>

theorem ground_query_feet_counterexample:
  "y guard + h guard = 110 \<and> atOrBelowFeet guard floor110 \<and> \<not> atOrBelowFeet guard ledge \<and>
   findGroundBelow guard [floor110, ledge] = Some ledge \<and>
   fst (enemyAI [floor110, ledge] 1 guard standing []) = guard\<lparr>y := 86, etype := Archer 99 180\<rparr>"
  by (simp add: findGroundBelow_def groundStep_def atOrBelowFeet_def snapToGround_def
      enemyAI_def Let_def guard_def floor110_def ledge_def)

subsection \<open>The collision passes\<close>

lemma collideX_miss: "\<not> aabb b pl \<Longrightarrow> collideX pl b = b"
  by (simp add: collideX_def)

lemma collideX_still: "vx b = 0 \<Longrightarrow> collideX pl b = b"
  by (cases b) (simp add: collideX_def)

lemma fold_collideX_still: "vx b = 0 \<Longrightarrow> fold collideX pls b = b"
  by (induction pls) (simp_all add: collideX_still)

lemma fold_collideX_none: "find (aabb b) pls = None \<Longrightarrow> fold collideX pls b = b"
  by (induction pls) (simp_all add: collideX_miss split: if_splits)

lemma fold_collideX_first:
  assumes "find (aabb b) pls = Some pl"
  shows "fold collideX pls b = collideX pl b"
  using assms
proof (induction pls)
  case Nil
  then show ?case by simp
next
  case (Cons q pls)
  show ?case
  proof (cases "aabb b q")
    case True
    then have q: "q = pl" using Cons.prems by simp
    have "vx (collideX q b) = 0" using True by (simp add: collideX_def)
    then have "fold collideX pls (collideX q b) = collideX q b"
      by (rule fold_collideX_still)
    then show ?thesis by (simp add: q)
  next
    case False
    then show ?thesis
      using Cons by (simp add: collideX_miss)
  qed
qed

lemma passX_closed:
  "case find (aabb (b\<lparr>x := x b + vx b * dt\<rparr>)) pls of
     None \<Rightarrow> passX b pls dt = b\<lparr>x := x b + vx b * dt\<rparr> \<and>
             list_all (\<lambda>pl. \<not> aabb (passX b pls dt) pl) pls
   | Some pl \<Rightarrow>
       passX b pls dt =
         (if 0 < vx b then b\<lparr>x := x pl - w b, vx := 0\<rparr>
          else if vx b < 0 then b\<lparr>x := x pl + w pl, vx := 0\<rparr>
          else b\<lparr>x := x b + vx b * dt, vx := 0\<rparr>) \<and>
       (vx b < 0 \<longrightarrow> \<not> aabb (passX b pls dt) pl)"
proof (cases "find (aabb (b\<lparr>x := x b + vx b * dt\<rparr>)) pls")
  case None
  then have eq: "passX b pls dt = b\<lparr>x := x b + vx b * dt\<rparr>"
    by (simp add: passX_def fold_collideX_none)
  have "list_all (\<lambda>pl. \<not> aabb (b\<lparr>x := x b + vx b * dt\<rparr>) pl) pls"
    using None by (simp add: find_None_iff list_all_iff)
  then show ?thesis
    by (simp add: None eq)
next
  case (Some pl)
  then have hit: "aabb (b\<lparr>x := x b + vx b * dt\<rparr>) pl"
    by (auto simp add: find_Some_iff)
  have "passX b pls dt = collideX pl (b\<lparr>x := x b + vx b * dt\<rparr>)"
    using Some by (simp add: passX_def fold_collideX_first)
  then have eq: "passX b pls dt =
         (if 0 < vx b then b\<lparr>x := x pl - w b, vx := 0\<rparr>
          else if vx b < 0 then b\<lparr>x := x pl + w pl, vx := 0\<rparr>
          else b\<lparr>x := x b + vx b * dt, vx := 0\<rparr>)"
    using hit by (simp add: collideX_def)
  have "vx b < 0 \<longrightarrow> \<not> aabb (passX b pls dt) pl"
    by (simp add: eq aabb_def)
  then show ?thesis
    using eq by (simp add: Some)
qed

lemma collideY_miss: "\<not> aabb b pl \<Longrightarrow> collideY setG pl b = b"
  by (simp add: collideY_def)

lemma collideY_still: "vy b = 0 \<Longrightarrow> collideY setG pl b = b"
  by (simp add: collideY_def)

lemma fold_collideY_still: "vy b = 0 \<Longrightarrow> fold (collideY setG) pls b = b"
  by (induction pls) (simp_all add: collideY_still)

lemma fold_collideY_none: "find (aabb b) pls = None \<Longrightarrow> fold (collideY setG) pls b = b"
  by (induction pls) (simp_all add: collideY_miss split: if_splits)

lemma keepsBox_flags: "keepsBox setOnGround" "keepsBox setGrounded"
  by (simp_all add: keepsBox_def setOnGround_def setGrounded_def)

lemma fold_collideY_first:
  assumes "keepsBox setG" and "find (aabb b) pls = Some pl"
  shows "fold (collideY setG) pls b = collideY setG pl b"
  using assms(2)
proof (induction pls)
  case Nil
  then show ?case by simp
next
  case (Cons q pls)
  show ?case
  proof (cases "aabb b q")
    case True
    then have q: "q = pl" using Cons.prems by simp
    have "vy (collideY setG q b) = 0"
      using assms(1) True by (simp add: collideY_def keepsBox_def)
    then have "fold (collideY setG) pls (collideY setG q b) = collideY setG q b"
      by (rule fold_collideY_still)
    then show ?thesis by (simp add: q)
  next
    case False
    then show ?thesis
      using Cons by (simp add: collideY_miss)
  qed
qed

lemma passY_player_closed:
  "case find (aabb (p\<lparr>y := y p + vy p * dt\<rparr>)) pls of
     None \<Rightarrow> passY setOnGround p pls dt = p\<lparr>y := y p + vy p * dt, onGround := False\<rparr> \<and>
             list_all (\<lambda>pl. \<not> aabb (passY setOnGround p pls dt) pl) pls
   | Some pl \<Rightarrow>
       passY setOnGround p pls dt =
         (if 0 < vy p then p\<lparr>y := y pl - h p, vy := 0, onGround := True\<rparr>
          else if vy p < 0 then p\<lparr>y := y pl + h pl, vy := 0, onGround := False\<rparr>
          else p\<lparr>y := y p + vy p * dt, onGround := False\<rparr>) \<and>
       (vy p < 0 \<longrightarrow> \<not> aabb (passY setOnGround p pls dt) pl)"
proof -
  let ?m = "(setOnGround False p)\<lparr>y := y p + vy p * dt\<rparr>"
  have same: "aabb ?m = aabb (p\<lparr>y := y p + vy p * dt\<rparr>)"
    by (intro ext) (simp add: setOnGround_def aabb_def)
  show ?thesis
  proof (cases "find (aabb (p\<lparr>y := y p + vy p * dt\<rparr>)) pls")
    case None
    then have eq: "passY setOnGround p pls dt = ?m"
      by (simp add: passY_def fold_collideY_none same)
    have "list_all (\<lambda>pl. \<not> aabb ?m pl) pls"
      using None by (simp add: same find_None_iff list_all_iff)
    then show ?thesis
      by (simp add: None eq) (simp add: setOnGround_def)
  next
    case (Some pl)
    then have hit: "aabb ?m pl"
      by (auto simp add: find_Some_iff same)
    have "passY setOnGround p pls dt = collideY setOnGround pl ?m"
      using Some by (simp add: passY_def fold_collideY_first [OF keepsBox_flags(1)] same)
    then have eq: "passY setOnGround p pls dt =
         (if 0 < vy p then p\<lparr>y := y pl - h p, vy := 0, onGround := True\<rparr>
          else if vy p < 0 then p\<lparr>y := y pl + h pl, vy := 0, onGround := False\<rparr>
          else p\<lparr>y := y p + vy p * dt, onGround := False\<rparr>)"
      using hit by (simp add: collideY_def) (simp add: setOnGround_def)
    have "vy p < 0 \<longrightarrow> \<not> aabb (passY setOnGround p pls dt) pl"
      by (simp add: eq aabb_def)
    then show ?thesis
      using eq by (simp add: Some)
  qed
qed

lemma passY_boss_closed:
  "case find (aabb (b\<lparr>y := y b + vy b * dt\<rparr>)) pls of
     None \<Rightarrow> passY setGrounded b pls dt = b\<lparr>y := y b + vy b * dt, grounded := False\<rparr> \<and>
             list_all (\<lambda>pl. \<not> aabb (passY setGrounded b pls dt) pl) pls
   | Some pl \<Rightarrow>
       passY setGrounded b pls dt =
         (if 0 < vy b then b\<lparr>y := y pl - h b, vy := 0, grounded := True\<rparr>
          else if vy b < 0 then b\<lparr>y := y pl + h pl, vy := 0, grounded := False\<rparr>
          else b\<lparr>y := y b + vy b * dt, grounded := False\<rparr>) \<and>
       (vy b < 0 \<longrightarrow> \<not> aabb (passY setGrounded b pls dt) pl)"
proof -
  let ?m = "(setGrounded False b)\<lparr>y := y b + vy b * dt\<rparr>"
  have same: "aabb ?m = aabb (b\<lparr>y := y b + vy b * dt\<rparr>)"
    by (intro ext) (simp add: setGrounded_def aabb_def)
  show ?thesis
  proof (cases "find (aabb (b\<lparr>y := y b + vy b * dt\<rparr>)) pls")
    case None
    then have eq: "passY setGrounded b pls dt = ?m"
      by (simp add: passY_def fold_collideY_none same)
    have "list_all (\<lambda>pl. \<not> aabb ?m pl) pls"
      using None by (simp add: same find_None_iff list_all_iff)
    then show ?thesis
      by (simp add: None eq) (simp add: setGrounded_def)
  next
    case (Some pl)
    then have hit: "aabb ?m pl"
      by (auto simp add: find_Some_iff same)
    have "passY setGrounded b pls dt = collideY setGrounded pl ?m"
      using Some by (simp add: passY_def fold_collideY_first [OF keepsBox_flags(2)] same)
    then have eq: "passY setGrounded b pls dt =
         (if 0 < vy b then b\<lparr>y := y pl - h b, vy := 0, grounded := True\<rparr>
          else if vy b < 0 then b\<lparr>y := y pl + h pl, vy := 0, grounded := False\<rparr>
          else b\<lparr>y := y b + vy b * dt, grounded := False\<rparr>)"
      using hit by (simp add: collideY_def) (simp add: setGrounded_def)
    have "vy b < 0 \<longrightarrow> \<not> aabb (passY setGrounded b pls dt) pl"
      by (simp add: eq aabb_def)
    then show ?thesis
      using eq by (simp add: Some)
  qed
qed


text \<open>
  Claim C3, as amended. Take the platforms in the order of the list and the body after the
  integration step of an axis (the horizontal pass for any body; the vertical pass for the
  player and for the boss). If the body overlaps no platform then, the pass leaves it as
  integrated, clear of all of them. Otherwise only the first platform that it overlaps
  counts. With a negative velocity on the axis the pass sets the position to the far edge
  of that platform, \<open>x pl + w pl\<close> or \<open>y pl + h pl\<close>, and the body does not overlap that
  platform afterwards. With a positive velocity it sets the position to \<open>x pl - w b\<close> or
  \<open>y pl - h b\<close>, the source's subtraction, and the vertical pass sets the grounded flag;
  that the body is then clear of the platform is not stated, since it holds only when the
  subtraction is exact. In both cases the velocity on the axis is zero afterwards, so no
  later platform moves the body. With velocity zero the body stays where it is.
\<close>

theorem pass_resolves_first_overlap:
  "(case find (aabb (b\<lparr>x := x b + vx b * dt\<rparr>)) pls of
      None \<Rightarrow> passX b pls dt = b\<lparr>x := x b + vx b * dt\<rparr> \<and>
              list_all (\<lambda>pl. \<not> aabb (passX b pls dt) pl) pls
    | Some pl \<Rightarrow>
        passX b pls dt =
          (if 0 < vx b then b\<lparr>x := x pl - w b, vx := 0\<rparr>
           else if vx b < 0 then b\<lparr>x := x pl + w pl, vx := 0\<rparr>
           else b\<lparr>x := x b + vx b * dt, vx := 0\<rparr>) \<and>
        (vx b < 0 \<longrightarrow> \<not> aabb (passX b pls dt) pl)) \<and>
   (case find (aabb (p\<lparr>y := y p + vy p * dt\<rparr>)) pls of
      None \<Rightarrow> passY setOnGround p pls dt = p\<lparr>y := y p + vy p * dt, onGround := False\<rparr> \<and>
              list_all (\<lambda>pl. \<not> aabb (passY setOnGround p pls dt) pl) pls
    | Some pl \<Rightarrow>
        passY setOnGround p pls dt =
          (if 0 < vy p then p\<lparr>y := y pl - h p, vy := 0, onGround := True\<rparr>
           else if vy p < 0 then p\<lparr>y := y pl + h pl, vy := 0, onGround := False\<rparr>
           else p\<lparr>y := y p + vy p * dt, onGround := False\<rparr>) \<and>
        (vy p < 0 \<longrightarrow> \<not> aabb (passY setOnGround p pls dt) pl)) \<and>
   (case find (aabb (bs\<lparr>y := y bs + vy bs * dt\<rparr>)) pls of
      None \<Rightarrow> passY setGrounded bs pls dt = bs\<lparr>y := y bs + vy bs * dt, grounded := False\<rparr> \<and>
              list_all (\<lambda>pl. \<not> aabb (passY setGrounded bs pls dt) pl) pls
    | Some pl \<Rightarrow>
        passY setGrounded bs pls dt =
          (if 0 < vy bs then bs\<lparr>y := y pl - h bs, vy := 0, grounded := True\<rparr>
           else if vy bs < 0 then bs\<lparr>y := y pl + h pl, vy := 0, grounded := False\<rparr>
           else bs\<lparr>y := y bs + vy bs * dt, grounded := False\<rparr>) \<and>
        (vy bs < 0 \<longrightarrow> \<not> aabb (passY setGrounded bs pls dt) pl))"
  using passX_closed [where b = b and dt = dt and pls = pls]
    passY_player_closed [where p = p and dt = dt and pls = pls]
    passY_boss_closed [where b = bs and dt = dt and pls = pls]
  by (intro conjI)

theorem pass_resolves_first_overlap_witness:
  "find (aabb (standing\<lparr>vx := 5, x := x (standing\<lparr>vx := 5\<rparr>) + vx (standing\<lparr>vx := 5\<rparr>) * 1\<rparr>))
     [wallA, wallB] = Some wallA \<and>
   passX (standing\<lparr>vx := 5\<rparr>) [wallA, wallB] 1 = standing\<lparr>x := 28 - 8, vx := 0\<rparr> \<and>
   passY setOnGround (standing\<lparr>vy := 5\<rparr>) [floor110, shelf] 1
     = standing\<lparr>y := 110 - 12, vy := 0, onGround := True\<rparr> \<and>
   passY setGrounded (warlord\<lparr>vy := 1\<rparr>) [floor110] 1
     = warlord\<lparr>y := 110 - 20, vy := 0, grounded := True\<rparr> \<and>
   vx (standing\<lparr>vx := - 5\<rparr>) < 0 \<and>
   passX (standing\<lparr>vx := - 5\<rparr>) [wallL] 1 = standing\<lparr>x := 2 + 10, vx := 0\<rparr> \<and>
   \<not> aabb (passX (standing\<lparr>vx := - 5\<rparr>) [wallL] 1) wallL \<and>
   vy (standing\<lparr>vy := - 5\<rparr>) < 0 \<and>
   passY setOnGround (standing\<lparr>vy := - 5\<rparr>) [crate] 1
     = standing\<lparr>y := 100 + 5, vy := 0, onGround := False\<rparr> \<and>
   \<not> aabb (passY setOnGround (standing\<lparr>vy := - 5\<rparr>) [crate] 1) crate"
  using pass_resolves_first_overlap [where b = "standing\<lparr>vx := 5\<rparr>" and dt = 1
            and pls = "[wallA, wallB]" and p = "standing\<lparr>vy := 5\<rparr>"
            and bs = "warlord\<lparr>vy := 1\<rparr>"]
        pass_resolves_first_overlap [where b = "standing\<lparr>vx := 5\<rparr>" and dt = 1
            and pls = "[floor110, shelf]" and p = "standing\<lparr>vy := 5\<rparr>"
            and bs = "warlord\<lparr>vy := 1\<rparr>"]
        pass_resolves_first_overlap [where b = "standing\<lparr>vx := 5\<rparr>" and dt = 1
            and pls = "[floor110]" and p = "standing\<lparr>vy := 5\<rparr>"
            and bs = "warlord\<lparr>vy := 1\<rparr>"]
        pass_resolves_first_overlap [where b = "standing\<lparr>vx := - 5\<rparr>" and dt = 1
            and pls = "[wallL]" and p = "standing\<lparr>vy := - 5\<rparr>"
            and bs = "warlord\<lparr>vy := 1\<rparr>"]
        pass_resolves_first_overlap [where b = "standing\<lparr>vx := - 5\<rparr>" and dt = 1
            and pls = "[crate]" and p = "standing\<lparr>vy := - 5\<rparr>"
            and bs = "warlord\<lparr>vy := 1\<rparr>"]
  by (simp add: aabb_def standing_def makePlayer_def wallA_def wallB_def wallL_def crate_def
      floor110_def shelf_def warlord_def)

text \<open>
  The claim C3 as it was stated fails: after the horizontal pass the player, moving right
  into two walls, still overlaps the second wall; a player with horizontal velocity zero
  stays inside a crate; and after the vertical pass the falling player, snapped onto the
  floor, overlaps the shelf above it.
\<close>

theorem overlap_after_pass_counterexample:
  "aabb (passX (standing\<lparr>vx := 5\<rparr>) [wallA, wallB] 1) wallB \<and>
   aabb (passX standing [crate] 1) crate \<and>
   aabb (passY setOnGround (standing\<lparr>vy := 5\<rparr>) [floor110, shelf] 1) shelf"
  by (simp add: passX_def passY_def collideX_def collideY_def setOnGround_def aabb_def
      standing_def makePlayer_def wallA_def wallB_def crate_def floor110_def shelf_def)

subsection \<open>The phases of the boss\<close>

lemma collideX_boss: "phase (collideX pl b) = phase b \<and> timer (collideX pl b) = timer b"
  by (simp add: collideX_def)

lemma collideY_boss:
  "phase (collideY setGrounded pl b) = phase b \<and> timer (collideY setGrounded pl b) = timer b"
  by (simp add: collideY_def setGrounded_def)

lemma fold_collideX_boss:
  "phase (fold collideX pls b) = phase b \<and> timer (fold collideX pls b) = timer b"
  by (induction pls arbitrary: b) (simp_all add: collideX_boss)

lemma fold_collideY_boss:
  "phase (fold (collideY setGrounded) pls b) = phase b \<and>
   timer (fold (collideY setGrounded) pls b) = timer b"
  by (induction pls arbitrary: b) (simp_all add: collideY_boss)

lemma bossIntegrate_boss:
  "phase (bossIntegrate b pls dt) = phase b" "timer (bossIntegrate b pls dt) = timer b"
  by (simp_all add: bossIntegrate_def moveAndCollide_def passX_def passY_def fold_collideX_boss
      fold_collideY_boss setGrounded_def)

lemma bossPhase_leap:
  assumes "phase b = 0"
  shows "snd (bossPhase pls dt p b ars) = ars"
    and "grounded (fst (bossPhase pls dt p b ars)) \<and> 90 \<le> timer b \<Longrightarrow>
           phase (fst (bossPhase pls dt p b ars)) = 1 \<and> timer (fst (bossPhase pls dt p b ars)) = 0"
    and "\<not> (grounded (fst (bossPhase pls dt p b ars)) \<and> 90 \<le> timer b) \<Longrightarrow>
           phase (fst (bossPhase pls dt p b ars)) = 0 \<and>
           timer (fst (bossPhase pls dt p b ars)) = timer b + 1"
  using assms
  by (auto simp add: bossPhase_def Let_def bossIntegrate_boss split: if_splits)

lemma bossPhase_shockwave:
  assumes "phase b = 1"
  shows "bossPhase pls dt p b ars =
           (if 100 \<le> timer b then b\<lparr>phase := 2, timer := 0\<rparr> else b\<lparr>timer := timer b + 1\<rparr>,
            if timer b = 0 then spawnShockwave ars b else ars)"
  using assms by (simp add: bossPhase_def Let_def spawnShockwave_def)

lemma bossPhase_volley:
  assumes "phase b = 2"
  shows "bossPhase pls dt p b ars =
           (if 100 \<le> timer b then b\<lparr>phase := 0, timer := 0\<rparr> else b\<lparr>timer := timer b + 1\<rparr>,
            if timer b = 0 \<or> timer b = 29 \<or> timer b = 59 then ars @ [volleyArrow p b] else ars)"
  using assms by (auto simp add: bossPhase_def Let_def volleyArrow_def)

lemma bossRun_snoc:
  "bossRun (ins @ [(pls, dt, p)]) b =
     (fst (bossPhase pls dt p (fst (bossRun ins b)) []),
      snd (bossRun ins b) @ snd (bossPhase pls dt p (fst (bossRun ins b)) []))"
proof (induction ins arbitrary: b)
  case Nil
  show ?case by (simp split: prod.splits)
next
  case (Cons i ins)
  obtain pls' dt' p' where i: "i = (pls', dt', p')" by (cases i)
  obtain b1 new where s: "bossPhase pls' dt' p' b [] = (b1, new)" by (cases "bossPhase pls' dt' p' b []")
  show ?case
    by (simp add: i s Cons.IH [of b1] split: prod.splits)
qed

lemma leap_run:
  assumes "phase b = 0" and "timer b = 0"
  shows "length ins \<le> 90 \<Longrightarrow>
           phase (fst (bossRun ins b)) = 0 \<and> timer (fst (bossRun ins b)) = int (length ins) \<and>
           snd (bossRun ins b) = []"
proof (induction ins rule: rev_induct)
  case Nil
  show ?case using assms by simp
next
  case (snoc i ins)
  obtain pls dt p where i: "i = (pls, dt, p)" by (cases i)
  let ?b = "fst (bossRun ins b)"
  from snoc have ih: "phase ?b = 0" "timer ?b = int (length ins)" "snd (bossRun ins b) = []"
    and n: "length ins < 90"
    by simp_all
  have "\<not> (grounded (fst (bossPhase pls dt p ?b [])) \<and> 90 \<le> timer ?b)"
    using ih(2) n by simp
  then have "phase (fst (bossPhase pls dt p ?b [])) = 0 \<and>
             timer (fst (bossPhase pls dt p ?b [])) = timer ?b + 1"
    by (rule bossPhase_leap(3) [OF ih(1)])
  then show ?case
    using ih bossPhase_leap(1) [OF ih(1), of pls dt p "[]"] by (simp add: i bossRun_snoc)
qed

lemma leap_ends:
  assumes "phase b = 0" and "timer b = 0" and "length ins = 90"
  shows "if grounded (fst (bossRun (ins @ [i]) b))
         then phase (fst (bossRun (ins @ [i]) b)) = 1 \<and> timer (fst (bossRun (ins @ [i]) b)) = 0
         else phase (fst (bossRun (ins @ [i]) b)) = 0 \<and> timer (fst (bossRun (ins @ [i]) b)) = 91"
proof -
  obtain pls dt p where i: "i = (pls, dt, p)" by (cases i)
  let ?b = "fst (bossRun ins b)"
  have ih: "phase ?b = 0" "timer ?b = 90"
    using leap_run [OF assms(1,2), of ins] assms(3) by simp_all
  show ?thesis
    using bossPhase_leap(2,3) [OF ih(1), of pls dt p "[]"] ih(2)
    by (simp add: i bossRun_snoc)
qed

lemma timer_zero: "timer b = 0 \<Longrightarrow> b\<lparr>timer := 0\<rparr> = b"
  by (cases b) simp

lemma shockwave_run:
  assumes "phase b = 1" and "timer b = 0"
  shows "length ins \<le> 100 \<Longrightarrow>
           bossRun ins b =
             (b\<lparr>timer := int (length ins)\<rparr>, if ins = [] then [] else spawnShockwave [] b)"
proof (induction ins rule: rev_induct)
  case Nil
  show ?case using assms by (simp add: timer_zero)
next
  case (snoc i ins)
  obtain pls dt p where i: "i = (pls, dt, p)" by (cases i)
  from snoc have ih: "bossRun ins b =
             (b\<lparr>timer := int (length ins)\<rparr>, if ins = [] then [] else spawnShockwave [] b)"
    and n: "length ins < 100"
    by simp_all
  have ph: "phase (b\<lparr>timer := int (length ins)\<rparr>) = 1"
    using assms by simp
  have sw: "spawnShockwave [] (b\<lparr>timer := n\<rparr>) = spawnShockwave [] b" for n
    by (simp add: spawnShockwave_def)
  show ?case
    using n by (simp add: i bossRun_snoc ih bossPhase_shockwave [OF ph] sw)
qed

lemma shockwave_ends:
  assumes "phase b = 1" and "timer b = 0" and "length ins = 101"
  shows "bossRun ins b = (b\<lparr>phase := 2, timer := 0\<rparr>, spawnShockwave [] b)"
proof -
  obtain ins' i where s: "ins = ins' @ [i]" and n: "length ins' = 100"
    using assms(3) by (cases ins rule: rev_cases) auto
  obtain pls dt p where i: "i = (pls, dt, p)" by (cases i)
  have ih: "bossRun ins' b = (b\<lparr>timer := 100\<rparr>, spawnShockwave [] b)"
    using shockwave_run [OF assms(1,2), of ins'] n by auto
  have ph: "phase (b\<lparr>timer := 100\<rparr>) = 1"
    using assms by simp
  show ?thesis
    by (simp add: s i bossRun_snoc ih bossPhase_shockwave [OF ph])
qed

lemma volley_ticks_snoc:
  "map (\<lambda>k. f ((ins @ [i]) ! k)) (filter (\<lambda>k. k < Suc (length ins)) [0, 29, 59]) =
   map (\<lambda>k. f (ins ! k)) (filter (\<lambda>k. k < length ins) [0, 29, 59]) @
   (if length ins = 0 \<or> length ins = 29 \<or> length ins = 59 then [f i] else [])"
  by (auto simp add: nth_append)

lemma volley_run:
  assumes "phase b = 2" and "timer b = 0"
  shows "length ins \<le> 100 \<Longrightarrow>
           bossRun ins b =
             (b\<lparr>timer := int (length ins)\<rparr>,
              map (\<lambda>k. volleyArrow (snd (snd (ins ! k))) b)
                (filter (\<lambda>k. k < length ins) [0, 29, 59]))"
proof (induction ins rule: rev_induct)
  case Nil
  show ?case using assms by (simp add: timer_zero)
next
  case (snoc i ins)
  obtain pls dt p where i: "i = (pls, dt, p)" by (cases i)
  from snoc have ih: "bossRun ins b =
             (b\<lparr>timer := int (length ins)\<rparr>,
              map (\<lambda>k. volleyArrow (snd (snd (ins ! k))) b)
                (filter (\<lambda>k. k < length ins) [0, 29, 59]))"
    and n: "length ins < 100"
    by simp_all
  have ph: "phase (b\<lparr>timer := int (length ins)\<rparr>) = 2"
    using assms by simp
  have va: "volleyArrow p (b\<lparr>timer := n\<rparr>) = volleyArrow p b" for n
    by (simp add: volleyArrow_def)
  have "bossRun (ins @ [i]) b =
          (b\<lparr>timer := int (length ins) + 1\<rparr>,
           map (\<lambda>k. volleyArrow (snd (snd (ins ! k))) b)
                (filter (\<lambda>k. k < length ins) [0, 29, 59]) @
           (if length ins = 0 \<or> length ins = 29 \<or> length ins = 59
            then [volleyArrow (snd (snd i)) b] else []))"
    using n by (simp add: i bossRun_snoc ih bossPhase_volley [OF ph] va)
  then show ?case
    by (simp only: volley_ticks_snoc [of "\<lambda>j. volleyArrow (snd (snd j)) b" ins i, symmetric])
       (simp add: add.commute)
qed

lemma volley_ends:
  assumes "phase b = 2" and "timer b = 0" and "length ins = 101"
  shows "bossRun ins b =
           (b\<lparr>phase := 0, timer := 0\<rparr>,
            [volleyArrow (snd (snd (ins ! 0))) b, volleyArrow (snd (snd (ins ! 29))) b,
             volleyArrow (snd (snd (ins ! 59))) b])"
proof -
  obtain ins' i where s: "ins = ins' @ [i]" and n: "length ins' = 100"
    using assms(3) by (cases ins rule: rev_cases) auto
  obtain pls dt p where i: "i = (pls, dt, p)" by (cases i)
  have ih: "bossRun ins' b =
              (b\<lparr>timer := 100\<rparr>,
               [volleyArrow (snd (snd (ins' ! 0))) b, volleyArrow (snd (snd (ins' ! 29))) b,
                volleyArrow (snd (snd (ins' ! 59))) b])"
    using volley_run [OF assms(1,2), of ins'] n by simp
  have ph: "phase (b\<lparr>timer := 100\<rparr>) = 2"
    using assms by simp
  show ?thesis
    using n by (simp add: s i bossRun_snoc ih bossPhase_volley [OF ph] nth_append)
qed

subsection \<open>The first leap on the boss level\<close>

lemmas boss_eval = bossPhase_def Let_def bossIntegrate_def moveAndCollide_def passX_def passY_def
  collideX_def collideY_def setGrounded_def aabb_def clamp_def GRAVITY_def MAX_FALL_def
  floor110_def

lemma first_tick:
  "bossPhase [floor110] 1 (makePlayer 24 40) boss0 [] =
     (boss0\<lparr>x := 548.8, y := 85.85, vx := - 1.2, vy := - 4.15, timer := 1, grounded := False\<rparr>, [])"
  by (simp add: boss_eval boss0_def makePlayer_def)

lemma airborne_tick:
  assumes "1 \<le> n" "n < 90" "c + (v + 0.35) + 20 \<le> 110" "v + 0.35 \<le> 6.5" "- 999 \<le> v + 0.35"
    "c + 20 \<le> 110"
  shows "bossPhase [floor110] 1 p
           (boss0\<lparr>x := a, y := c, vx := u, vy := v, timer := n, grounded := g\<rparr>) [] =
         (boss0\<lparr>x := a + u, y := c + (v + 0.35), vx := u, vy := v + 0.35, timer := n + 1,
                 grounded := False\<rparr>, [])"
  using assms by (simp add: boss_eval boss0_def)

lemma landing_tick:
  assumes "1 \<le> n" "n < 90" "110 < c + (v + 0.35) + 20" "c + (v + 0.35) < 118" "0 < v + 0.35"
    "v + 0.35 \<le> 6.5" "c + 20 \<le> 110" "0 < a + u + 18" "a + u < 640"
  shows "bossPhase [floor110] 1 p
           (boss0\<lparr>x := a, y := c, vx := u, vy := v, timer := n, grounded := g\<rparr>) [] =
         (boss0\<lparr>x := a + u, vx := u, timer := n + 1\<rparr>, [])"
  using assms by (simp add: boss_eval boss0_def)

lemma ground_tick:
  assumes "1 \<le> n" "n < 90" "0 < a + u + 18" "a + u < 640"
  shows "bossPhase [floor110] 1 p (boss0\<lparr>x := a, vx := u, timer := n\<rparr>) [] =
         (boss0\<lparr>x := a + u, vx := u, timer := n + 1\<rparr>, [])"
  using assms by (simp add: boss_eval boss0_def)

lemma last_leap_tick:
  assumes "0 < a + u + 18" "a + u < 640"
  shows "bossPhase [floor110] 1 p (boss0\<lparr>x := a, vx := u, timer := 90\<rparr>) [] =
         (boss0\<lparr>x := a + u, vx := u, phase := 1, timer := 0\<rparr>, [])"
  using assms by (simp add: boss_eval boss0_def)

lemma boss_level_leap: "bossRun (replicate 90 bossTick @ [bossTick]) boss0 = (bossLanded, [])"
  by (simp add: eval_nat_numeral bossTick_def bossLanded_def first_tick airborne_tick
      landing_tick ground_tick last_leap_tick)

lemma bossPhase_appends:
  "fst (bossPhase pls dt p b ars) = fst (bossPhase pls dt p b []) \<and>
   snd (bossPhase pls dt p b ars) = ars @ snd (bossPhase pls dt p b [])"
  by (simp add: bossPhase_def Let_def spawnShockwave_def)

lemma bossAI_alive:
  assumes "boss.alive b"
  shows "fst (bossAI pls dt (Some b) ars p) = Some (fst (bossPhase pls dt p b [])) \<and>
         fst (snd (bossAI pls dt (Some b) ars p)) = ars @ snd (bossPhase pls dt p b [])"
  using assms bossPhase_appends [of pls dt p b ars]
  by (cases "bossPhase pls dt p b ars") (simp add: bossAI_def)

text \<open>
  Claim C5, as amended. In phase 0 a tick spawns nothing and adds one to the timer, sets
  the velocity of the leap on the first tick, integrates the boss, and moves to phase 1 with
  timer 0 exactly when, after the integration of that tick, the boss is grounded and the
  timer exceeds 90. So from phase 0 and timer 0 the boss is in phase 0 with the timer at the
  number of ticks for the first 90 ticks, and tick 91 moves it to phase 1 with timer 0 if it
  is grounded in that tick; otherwise it stays in phase 0 with timer 91, whether or not it
  was grounded on an earlier tick, since every tick computes the flag anew. From phase 1
  and timer 0, the first tick spawns the two shockwave projectiles (hostile, with horizontal
  velocities \<open>- 1.6\<close> and \<open>1.6\<close>), nothing else is spawned,
  and tick 101 moves to phase 2 with timer 0. From phase 2 and timer 0, one arrow is spawned
  on each of the ticks 1, 30 and 60, flying toward the side of the player of that tick, three
  in all, and tick 101 moves to phase 0 with timer 0. The boss block of \<^verbatim>\<open>update\<close> runs
  these phases for a living boss.
\<close>

theorem boss_phase_cycle:
  "(phase b = 0 \<longrightarrow>
      snd (bossPhase pls dt p b ars) = ars \<and>
      (if grounded (fst (bossPhase pls dt p b ars)) \<and> 90 \<le> timer b
       then phase (fst (bossPhase pls dt p b ars)) = 1 \<and>
            timer (fst (bossPhase pls dt p b ars)) = 0
       else phase (fst (bossPhase pls dt p b ars)) = 0 \<and>
            timer (fst (bossPhase pls dt p b ars)) = timer b + 1)) \<and>
   (phase b = 0 \<and> timer b = 0 \<and> length ins \<le> 90 \<longrightarrow>
      phase (fst (bossRun ins b)) = 0 \<and> timer (fst (bossRun ins b)) = int (length ins) \<and>
      snd (bossRun ins b) = []) \<and>
   (phase b = 0 \<and> timer b = 0 \<and> length ins = 90 \<longrightarrow>
      (if grounded (fst (bossRun (ins @ [i]) b))
       then phase (fst (bossRun (ins @ [i]) b)) = 1 \<and> timer (fst (bossRun (ins @ [i]) b)) = 0
       else phase (fst (bossRun (ins @ [i]) b)) = 0 \<and>
            timer (fst (bossRun (ins @ [i]) b)) = 91)) \<and>
   (phase b = 1 \<and> timer b = 0 \<and> 0 < length ins \<and> length ins \<le> 100 \<longrightarrow>
      bossRun ins b = (b\<lparr>timer := int (length ins)\<rparr>, spawnShockwave [] b)) \<and>
   (phase b = 1 \<and> timer b = 0 \<and> length ins = 101 \<longrightarrow>
      bossRun ins b = (b\<lparr>phase := 2, timer := 0\<rparr>, spawnShockwave [] b)) \<and>
   (length (spawnShockwave ars b) = length ars + 2 \<and>
    map vx (spawnShockwave [] b) = [- 1.6, 1.6] \<and>
    map friendly (spawnShockwave [] b) = [False, False]) \<and>
   (phase b = 2 \<and> timer b = 0 \<and> length ins \<le> 100 \<longrightarrow>
      bossRun ins b =
        (b\<lparr>timer := int (length ins)\<rparr>,
         map (\<lambda>k. volleyArrow (snd (snd (ins ! k))) b)
           (filter (\<lambda>k. k < length ins) [0, 29, 59]))) \<and>
   (phase b = 2 \<and> timer b = 0 \<and> length ins = 101 \<longrightarrow>
      bossRun ins b =
        (b\<lparr>phase := 0, timer := 0\<rparr>,
         [volleyArrow (snd (snd (ins ! 0))) b, volleyArrow (snd (snd (ins ! 29))) b,
          volleyArrow (snd (snd (ins ! 59))) b])) \<and>
   vx (volleyArrow p b) = (if x p < x b then - 1.8 else 1.8) \<and>
   (boss.alive b \<longrightarrow>
      fst (bossAI pls dt (Some b) ars p) = Some (fst (bossPhase pls dt p b [])) \<and>
      fst (snd (bossAI pls dt (Some b) ars p)) = ars @ snd (bossPhase pls dt p b [])) \<and>
   (phase b = 0 \<longrightarrow>
      fst (bossPhase pls dt p b ars) =
        (let b2 = bossIntegrate
                    (if timer b = 0
                     then b\<lparr>timer := 1, vx := (if x p < x b then - 1.2 else 1.2), vy := - 4.5\<rparr>
                     else b\<lparr>timer := timer b + 1\<rparr>) pls dt
         in if grounded b2 \<and> 90 \<le> timer b then b2\<lparr>phase := 1, timer := 0\<rparr> else b2))"
proof -
  have 1: "phase b = 0 \<longrightarrow>
      snd (bossPhase pls dt p b ars) = ars \<and>
      (if grounded (fst (bossPhase pls dt p b ars)) \<and> 90 \<le> timer b
       then phase (fst (bossPhase pls dt p b ars)) = 1 \<and>
            timer (fst (bossPhase pls dt p b ars)) = 0
       else phase (fst (bossPhase pls dt p b ars)) = 0 \<and>
            timer (fst (bossPhase pls dt p b ars)) = timer b + 1)"
    using bossPhase_leap [of b pls dt p ars] by simp
  have 2: "phase b = 0 \<and> timer b = 0 \<and> length ins \<le> 90 \<longrightarrow>
      phase (fst (bossRun ins b)) = 0 \<and> timer (fst (bossRun ins b)) = int (length ins) \<and>
      snd (bossRun ins b) = []"
    using leap_run [of b ins] by blast
  have 3: "phase b = 0 \<and> timer b = 0 \<and> length ins = 90 \<longrightarrow>
      (if grounded (fst (bossRun (ins @ [i]) b))
       then phase (fst (bossRun (ins @ [i]) b)) = 1 \<and> timer (fst (bossRun (ins @ [i]) b)) = 0
       else phase (fst (bossRun (ins @ [i]) b)) = 0 \<and>
            timer (fst (bossRun (ins @ [i]) b)) = 91)"
    using leap_ends [of b ins i] by blast
  have 4: "phase b = 1 \<and> timer b = 0 \<and> 0 < length ins \<and> length ins \<le> 100 \<longrightarrow>
      bossRun ins b = (b\<lparr>timer := int (length ins)\<rparr>, spawnShockwave [] b)"
    using shockwave_run [of b ins] by auto
  have 5: "phase b = 1 \<and> timer b = 0 \<and> length ins = 101 \<longrightarrow>
      bossRun ins b = (b\<lparr>phase := 2, timer := 0\<rparr>, spawnShockwave [] b)"
    using shockwave_ends [of b ins] by blast
  have 6: "length (spawnShockwave ars b) = length ars + 2"
    "map vx (spawnShockwave [] b) = [- 1.6, 1.6]"
    "map friendly (spawnShockwave [] b) = [False, False]"
    by (simp_all add: spawnShockwave_def)
  have 7: "phase b = 2 \<and> timer b = 0 \<and> length ins \<le> 100 \<longrightarrow>
      bossRun ins b =
        (b\<lparr>timer := int (length ins)\<rparr>,
         map (\<lambda>k. volleyArrow (snd (snd (ins ! k))) b)
           (filter (\<lambda>k. k < length ins) [0, 29, 59]))"
    using volley_run [of b ins] by blast
  have 8: "phase b = 2 \<and> timer b = 0 \<and> length ins = 101 \<longrightarrow>
      bossRun ins b =
        (b\<lparr>phase := 0, timer := 0\<rparr>,
         [volleyArrow (snd (snd (ins ! 0))) b, volleyArrow (snd (snd (ins ! 29))) b,
          volleyArrow (snd (snd (ins ! 59))) b])"
    using volley_ends [of b ins] by blast
  have 9: "vx (volleyArrow p b) = (if x p < x b then - 1.8 else 1.8)"
    by (simp add: volleyArrow_def)
  have 10: "boss.alive b \<longrightarrow>
      fst (bossAI pls dt (Some b) ars p) = Some (fst (bossPhase pls dt p b [])) \<and>
      fst (snd (bossAI pls dt (Some b) ars p)) = ars @ snd (bossPhase pls dt p b [])"
    using bossAI_alive [of b pls dt ars p] by blast
  have 11: "phase b = 0 \<longrightarrow>
      fst (bossPhase pls dt p b ars) =
        (let b2 = bossIntegrate
                    (if timer b = 0
                     then b\<lparr>timer := 1, vx := (if x p < x b then - 1.2 else 1.2), vy := - 4.5\<rparr>
                     else b\<lparr>timer := timer b + 1\<rparr>) pls dt
         in if grounded b2 \<and> 90 \<le> timer b then b2\<lparr>phase := 1, timer := 0\<rparr> else b2)"
    by (simp add: bossPhase_def Let_def bossIntegrate_boss)
  show ?thesis
    using 1 2 3 4 5 6 7 8 9 10 11 by (intro conjI)
qed

theorem boss_phase_cycle_witness:
  "boss levelBoss = Some boss0 \<and> platforms levelBoss = [floor110] \<and>
   phase boss0 = 0 \<and> timer boss0 = 0 \<and>
   grounded (fst (bossRun (replicate 90 bossTick @ [bossTick]) boss0)) \<and>
   phase (fst (bossRun (replicate 90 bossTick @ [bossTick]) boss0)) = 1 \<and>
   timer (fst (bossRun (replicate 90 bossTick @ [bossTick]) boss0)) = 0 \<and>
   snd (bossRun (replicate 90 bossTick @ [bossTick]) boss0) = [] \<and>
   phase bossLanded = 1 \<and> timer bossLanded = 0 \<and>
   bossRun (replicate 101 bossTick) bossLanded =
     (bossLanded\<lparr>phase := 2, timer := 0\<rparr>, spawnShockwave [] bossLanded) \<and>
   bossRun (replicate 101 bossTick) (bossLanded\<lparr>phase := 2, timer := 0\<rparr>) =
     (bossLanded\<lparr>phase := 0, timer := 0\<rparr>,
      [volleyArrow (makePlayer 24 40) (bossLanded\<lparr>phase := 2, timer := 0\<rparr>),
       volleyArrow (makePlayer 24 40) (bossLanded\<lparr>phase := 2, timer := 0\<rparr>),
       volleyArrow (makePlayer 24 40) (bossLanded\<lparr>phase := 2, timer := 0\<rparr>)])"
  using boss_phase_cycle [where b = boss0 and ins = "replicate 90 bossTick" and i = bossTick]
        boss_phase_cycle [where b = bossLanded and ins = "replicate 101 bossTick"]
        boss_phase_cycle [where b = "bossLanded\<lparr>phase := 2, timer := 0\<rparr>"
          and ins = "replicate 101 bossTick"]
        boss_level_leap
  by (simp add: levelBoss_def boss0_def floor110_def bossLanded_def bossTick_def)

subsection \<open>A leap that ends beside the floor\<close>

lemma first_tick_right:
  assumes "a \<le> 600"
  shows "bossPhase [floor110] 1 (makePlayer 600 40) (boss0\<lparr>x := a\<rparr>) [] =
     (boss0\<lparr>x := a + 1.2, y := 85.85, vx := 1.2, vy := - 4.15, timer := 1, grounded := False\<rparr>,
      [])"
  using assms by (simp add: boss_eval boss0_def makePlayer_def)

lemma first_tick_right_level:
  "bossPhase [floor110] 1 (makePlayer 600 40) boss0 [] =
     (boss0\<lparr>x := 551.2, y := 85.85, vx := 1.2, vy := - 4.15, timer := 1, grounded := False\<rparr>,
      [])"
  by (simp add: boss_eval boss0_def makePlayer_def)

lemma leaves_floor_tick:
  assumes "1 \<le> n" "640 \<le> a + u"
  shows "bossPhase [floor110] 1 p (boss0\<lparr>x := a, vx := u, timer := n\<rparr>) [] =
         (boss0\<lparr>x := a + u, y := 90.35, vx := u, vy := 0.35, timer := n + 1,
                 grounded := False\<rparr>, [])"
  using assms by (simp add: boss_eval boss0_def)

lemma off_floor_tick:
  assumes "1 \<le> n" "640 \<le> a + u" "v + 0.35 \<le> 6.5" "- 999 \<le> v + 0.35"
  shows "bossPhase [floor110] 1 p
           (boss0\<lparr>x := a, y := c, vx := u, vy := v, timer := n, grounded := g\<rparr>) [] =
         (boss0\<lparr>x := a + u, y := c + (v + 0.35), vx := u, vy := v + 0.35, timer := n + 1,
                 grounded := False\<rparr>, [])"
  using assms by (simp add: boss_eval boss0_def)

lemma edge_run_90:
  "bossRun (replicate 90 bossTickR) (boss0\<lparr>x := 531\<rparr>) =
     (boss0\<lparr>x := 639, vx := 1.2, timer := 90\<rparr>, [])"
  by (simp add: eval_nat_numeral bossTickR_def first_tick_right airborne_tick landing_tick
      ground_tick)

lemma bossRun_last:
  "bossRun (ins @ [i]) b =
     (fst (bossPhase (fst i) (fst (snd i)) (snd (snd i)) (fst (bossRun ins b)) []),
      snd (bossRun ins b) @
      snd (bossPhase (fst i) (fst (snd i)) (snd (snd i)) (fst (bossRun ins b)) []))"
  by (cases i) (simp add: bossRun_snoc)

lemma bossTickR_parts:
  "fst bossTickR = [floor110]" "fst (snd bossTickR) = 1" "snd (snd bossTickR) = makePlayer 600 40"
  by (simp_all add: bossTickR_def)

lemma edge_run_91:
  "bossRun (replicate 90 bossTickR @ [bossTickR]) (boss0\<lparr>x := 531\<rparr>) =
     (boss0\<lparr>x := 640.2, y := 90.35, vx := 1.2, vy := 0.35, timer := 91, grounded := False\<rparr>, [])"
  by (simp add: bossRun_last edge_run_90 bossTickR_parts leaves_floor_tick)

lemma level_run_25:
  "bossRun (replicate 25 bossTickR) boss0 = (boss0\<lparr>x := 580, vx := 1.2, timer := 25\<rparr>, [])"
  by (simp add: eval_nat_numeral bossTickR_def first_tick_right_level airborne_tick landing_tick)

lemma level_run_91:
  "bossRun (replicate 91 bossTickR) boss0 =
     (boss0\<lparr>x := 659.2, y := 143.55, vx := 1.2, vy := 5.95, timer := 91, grounded := False\<rparr>, [])"
  by (simp add: eval_nat_numeral bossTickR_def first_tick_right_level airborne_tick landing_tick
      ground_tick leaves_floor_tick off_floor_tick)

text \<open>
  The claim C5 as it was stated (phase 1 after exactly 91 ticks if grounded by tick 90) fails
  on the floor of the boss level with the player on the right of the boss. A boss that
  starts its leap at \<open>x = 531\<close> is grounded on tick 90, walks off the right end of the floor
  on tick 91 and is then in phase 0 with timer 91, not grounded. The boss of the level
  itself, at 550, is grounded on tick 25 and is also in phase 0 with timer 91 after 91 ticks.
\<close>

theorem grounded_by_tick_90_counterexample:
  "phase (boss0\<lparr>x := 531\<rparr>) = 0 \<and> timer (boss0\<lparr>x := 531\<rparr>) = 0 \<and>
   grounded (fst (bossRun (replicate 90 bossTickR) (boss0\<lparr>x := 531\<rparr>))) \<and>
   phase (fst (bossRun (replicate 90 bossTickR @ [bossTickR]) (boss0\<lparr>x := 531\<rparr>))) = 0 \<and>
   timer (fst (bossRun (replicate 90 bossTickR @ [bossTickR]) (boss0\<lparr>x := 531\<rparr>))) = 91 \<and>
   \<not> grounded (fst (bossRun (replicate 90 bossTickR @ [bossTickR]) (boss0\<lparr>x := 531\<rparr>))) \<and>
   boss levelBoss = Some boss0 \<and> platforms levelBoss = [floor110] \<and>
   grounded (fst (bossRun (replicate 25 bossTickR) boss0)) \<and>
   phase (fst (bossRun (replicate 91 bossTickR) boss0)) = 0 \<and>
   timer (fst (bossRun (replicate 91 bossTickR) boss0)) = 91"
  by (simp add: edge_run_90 edge_run_91 level_run_25 level_run_91)
     (simp add: boss0_def levelBoss_def floor110_def)

end
